theory Spec2Isabelle
  imports Main "HOL-Library.Sublist"
begin

section \<open>Python strings\<close>

text \<open>
  A Python \<^verbatim>\<open>str\<close> is modelled as a HOL \<^typ>\<open>string\<close> in which every \<^typ>\<open>char\<close> stands for
  one code point below 256. The functions of this section are the library functions that
  \<^verbatim>\<open>src/flora/vectorize.py\<close> calls on strings: \<^verbatim>\<open>str.strip\<close>, \<^verbatim>\<open>str.join\<close>, the
  conversion of an \<^verbatim>\<open>int\<close> inside an f-string, and \<^verbatim>\<open>textwrap.dedent\<close>.
\<close>

abbreviation nl :: char where
  "nl \<equiv> CHR 0x0A"

text \<open>
  \<^verbatim>\<open>str.isspace\<close> on one character. Below 256 the whitespace code points of Python are
  TAB, LF, VT, FF, CR, the separators FS, GS, RS, US, the space, NEL and the no-break space.
\<close>

definition isspace :: "char \<Rightarrow> bool" where
  "isspace c = (c \<in> set [CHR 0x09, CHR 0x0A, CHR 0x0B, CHR 0x0C, CHR 0x0D,
                           CHR 0x1C, CHR 0x1D, CHR 0x1E, CHR 0x1F, CHR 0x20,
                           CHR 0x85, CHR 0xA0])"

definition lstrip :: "string \<Rightarrow> string" where
  "lstrip s = dropWhile isspace s"

definition rstrip :: "string \<Rightarrow> string" where
  "rstrip s = rev (dropWhile isspace (rev s))"

text \<open>\<^verbatim>\<open>s.strip()\<close>: leading and trailing whitespace removed.\<close>

definition strip :: "string \<Rightarrow> string" where
  "strip s = rstrip (lstrip s)"

text \<open>\<^verbatim>\<open>sep.join(xs)\<close>.\<close>

fun join :: "string \<Rightarrow> string list \<Rightarrow> string" where
  "join sep [] = []"
| "join sep [x] = x"
| "join sep (x # y # ys) = x @ sep @ join sep (y # ys)"

text \<open>\<^verbatim>\<open>s.split('\n')\<close>: the lines of a text; the result is never empty.\<close>

fun split_nl :: "string \<Rightarrow> string list" where
  "split_nl [] = [ []]"
| "split_nl (c # cs) =
     (if c = nl then [] # split_nl cs
      else (case split_nl cs of
              [] \<Rightarrow> [ [c]]
            | l # ls \<Rightarrow> (c # l) # ls))"

text \<open>\<^verbatim>\<open>str(i)\<close> for an \<^verbatim>\<open>int\<close>, which is what \<^verbatim>\<open>f"{i}"\<close> inserts.\<close>

definition digit_char :: "nat \<Rightarrow> char" where
  "digit_char d = ''0123456789'' ! d"

function str_nat :: "nat \<Rightarrow> string" where
  "str_nat n = (if n < 10 then [digit_char n] else str_nat (n div 10) @ [digit_char (n mod 10)])"
  by pat_completeness auto
termination
  by (relation "measure (\<lambda>n. n)") auto

declare str_nat.simps [simp del]

definition str_int :: "int \<Rightarrow> string" where
  "str_int i = (if i < 0 then CHR ''-'' # str_nat (nat (- i)) else str_nat (nat i))"

subsection \<open>\<^verbatim>\<open>textwrap.dedent\<close>\<close>

text \<open>
  The library function, as CPython 3.9 to 3.13 has it:
  \<^verbatim>\<open>
  _whitespace_only_re = re.compile('^[ \t]+$', re.MULTILINE)
  _leading_whitespace_re = re.compile('(^[ \t]*)(?:[^ \t\n])', re.MULTILINE)

  def dedent(text):
      margin = None
      text = _whitespace_only_re.sub('', text)
      indents = _leading_whitespace_re.findall(text)
      for indent in indents:
          if margin is None:
              margin = indent
          elif indent.startswith(margin):
              pass
          elif margin.startswith(indent):
              margin = indent
          else:
              for i, (x, y) in enumerate(zip(margin, indent)):
                  if x != y:
                      margin = margin[:i]
                      break
      if margin:
          text = re.sub(r'(?m)^' + margin, '', text)
      return text
  \<close>
  With \<^verbatim>\<open>re.MULTILINE\<close> the anchors match at the borders of the lines that
  \<^verbatim>\<open>text.split('\n')\<close> yields, and none of the three patterns matches a line feed, so each
  regular expression acts on every line by itself.
\<close>

definition is_sptab :: "char \<Rightarrow> bool" where
  "is_sptab c = (c = CHR '' '' \<or> c = CHR 0x09)"

text \<open>A line that \<^verbatim>\<open>^[ \t]+$\<close> matches: not empty, spaces and tabs only.\<close>

definition whitespace_only :: "string \<Rightarrow> bool" where
  "whitespace_only l = (l \<noteq> [] \<and> dropWhile is_sptab l = [])"

text \<open>\<^verbatim>\<open>_whitespace_only_re.sub('', text)\<close>, on one line and on the text.\<close>

definition blank_line :: "string \<Rightarrow> string" where
  "blank_line l = (if whitespace_only l then [] else l)"

definition whitespace_only_sub :: "string \<Rightarrow> string" where
  "whitespace_only_sub text = join [nl] (map blank_line (split_nl text))"

text \<open>
  \<^verbatim>\<open>_leading_whitespace_re.findall(text)\<close>: the leading run of spaces and tabs of every line
  that has another character after that run.
\<close>

definition leading_whitespace_findall :: "string \<Rightarrow> string list" where
  "leading_whitespace_findall text =
     map (takeWhile is_sptab) (filter (\<lambda>l. dropWhile is_sptab l \<noteq> []) (split_nl text))"

text \<open>The index of the first position where two strings differ, within the shorter one.\<close>

fun first_diff :: "string \<Rightarrow> string \<Rightarrow> nat option" where
  "first_diff (x # xs) (y # ys) =
     (if x \<noteq> y then Some 0 else map_option Suc (first_diff xs ys))"
| "first_diff _ _ = None"

text \<open>One round of the loop over \<^verbatim>\<open>indents\<close>.\<close>

fun margin_step :: "string option \<Rightarrow> string \<Rightarrow> string option" where
  "margin_step None indent = Some indent"
| "margin_step (Some margin) indent =
     (if prefix margin indent then Some margin
      else if prefix indent margin then Some indent
      else (case first_diff margin indent of
              Some i \<Rightarrow> Some (take i margin)
            | None \<Rightarrow> Some margin))"

text \<open>\<^verbatim>\<open>re.sub(r'(?m)^' + margin, '', text)\<close> on one line.\<close>

definition remove_margin :: "string \<Rightarrow> string \<Rightarrow> string" where
  "remove_margin margin l = (if prefix margin l then drop (length margin) l else l)"

definition dedent :: "string \<Rightarrow> string" where
  "dedent text =
     (let text1 = whitespace_only_sub text;
          margin = foldl margin_step None (leading_whitespace_findall text1)
      in case margin of
           None \<Rightarrow> text1
         | Some m \<Rightarrow>
             if m \<noteq> [] then join [nl] (map (remove_margin m) (split_nl text1))
             else text1)"

section \<open>The generation side: \<^verbatim>\<open>call_llama_with_context\<close>\<close>

text \<open>
  An instance of Python's class \<^verbatim>\<open>Exception\<close>: its class name and the text \<^verbatim>\<open>str(e)\<close>.
  These are the exceptions that \<^verbatim>\<open>except Exception\<close> of line 83 catches, among them every
  failure to start a process (\<^verbatim>\<open>OSError\<close> and its subclasses). An interrupt of the
  interpreter (\<^verbatim>\<open>KeyboardInterrupt\<close>, \<^verbatim>\<open>SystemExit\<close>) is no instance of
  \<^verbatim>\<open>Exception\<close> and is not part of this model.
\<close>

datatype py_exception = PyException (exc_class: string) (exc_str: string)

text \<open>
  \<^verbatim>\<open>subprocess.CompletedProcess\<close>, as \<^verbatim>\<open>subprocess.run\<close> returns it with
  \<^verbatim>\<open>text=True, capture_output=True\<close>: both streams are strings.
\<close>

record completed_process =
  returncode :: int
  stdout :: string
  stderr :: string

text \<open>
  The execution environment. \<^verbatim>\<open>which\<close> is the answer of \<^verbatim>\<open>shutil.which\<close>,
  \<^verbatim>\<open>run_outcome\<close> is what \<^verbatim>\<open>subprocess.run\<close> does for a command line and a standard
  input (it raises, or the process runs to its end), and \<^verbatim>\<open>run_calls\<close> records every call
  of \<^verbatim>\<open>subprocess.run\<close>, the only place where a subordinate process is started.
\<close>

record world =
  which :: "string \<Rightarrow> string option"
  run_outcome :: "string list \<Rightarrow> string \<Rightarrow> py_exception + completed_process"
  run_calls :: "(string list \<times> string) list"

definition shutil_which :: "world \<Rightarrow> string \<Rightarrow> string option" where
  "shutil_which w cmd = which w cmd"

definition subprocess_run ::
  "world \<Rightarrow> string list \<Rightarrow> string \<Rightarrow> (py_exception + completed_process) \<times> world" where
  "subprocess_run w args input =
     (run_outcome w args input, w\<lparr>run_calls := run_calls w @ [(args, input)]\<rparr>)"

text \<open>The command line of line 77.\<close>

definition ollama_argv :: "string list" where
  "ollama_argv = [''ollama'', ''run'', ''llama3.1'']"

definition ollama_missing_message :: string where
  \<open>ollama_missing_message =
     ''Ollama CLI not found. Please install from https://ollama.com and ensure '' @
     ''"ollama" is on your PATH.''\<close>

text \<open>\<^verbatim>\<open>_ensure_ollama_available\<close>: \<^verbatim>\<open>None\<close> if available, else the message.\<close>

definition ensure_ollama_available :: "world \<Rightarrow> string option" where
  "ensure_ollama_available w =
     (case shutil_which w ''ollama'' of
        None \<Rightarrow> Some ollama_missing_message
      | Some path \<Rightarrow> None)"

text \<open>Python's truth value of an optional string: \<^verbatim>\<open>None\<close> and \<^verbatim>\<open>""\<close> are false.\<close>

fun truthy :: "string option \<Rightarrow> bool" where
  "truthy None = False"
| "truthy (Some s) = (s \<noteq> [])"

text \<open>\<^verbatim>\<open>"\n\n".join(f"- {d}" for d in retrieved_docs)\<close>\<close>

definition context_block :: "string list \<Rightarrow> string" where
  "context_block retrieved_docs = join [nl, nl] (map (\<lambda>d. ''- '' @ d) retrieved_docs)"

text \<open>
  The f-string of lines 62 to 71, before \<^verbatim>\<open>dedent\<close>: it opens with a line feed, every
  template line is indented by eight spaces, and it ends with the eight spaces that precede the
  closing quotes.
\<close>

definition prompt_template :: "string \<Rightarrow> string \<Rightarrow> string" where
  \<open>prompt_template ctx question =
     [nl] @
     ''        You are a helpful assistant. Use only the provided context to answer the user's'' @ [nl] @
     ''        question. If the answer is not in the context, say you don't know.'' @ [nl] @
     [nl] @
     ''        Context:'' @ [nl] @
     ''        '' @ ctx @ [nl] @
     [nl] @
     ''        Question: '' @ question @ [nl] @
     ''        Answer:'' @ [nl] @
     ''        ''\<close>

text \<open>Lines 60 to 72: the prompt that is sent to the model.\<close>

definition build_prompt :: "string \<Rightarrow> string list \<Rightarrow> string" where
  "build_prompt question retrieved_docs =
     strip (dedent (prompt_template (context_block retrieved_docs) question))"

text \<open>
  \<^verbatim>\<open>call_llama_with_context\<close>. The result is \<open>Inr\<close> of the returned string, or \<open>Inl\<close> of an
  exception that leaves the function; the second component is the environment afterwards.
  \<^verbatim>\<open>the missing\<close> is evaluated only where \<^verbatim>\<open>missing\<close> is true, hence a string.
\<close>

definition call_llama_with_context ::
  "string \<Rightarrow> string list \<Rightarrow> world \<Rightarrow> (py_exception + string) \<times> world" where
  "call_llama_with_context question retrieved_docs w =
     (let missing = ensure_ollama_available w in
      if truthy missing then (Inr (the missing), w)
      else
        let prompt = build_prompt question retrieved_docs in
        case subprocess_run w ollama_argv prompt of
          (Inl e, w') \<Rightarrow> (Inr (''Failed to invoke Ollama: '' @ exc_str e), w')
        | (Inr proc, w') \<Rightarrow>
            if returncode proc \<noteq> 0
            then (Inr (''Ollama returned non-zero exit code '' @ str_int (returncode proc) @
                       '': '' @ strip (stderr proc)), w')
            else (Inr (strip (stdout proc)), w'))"

section \<open>The indexing side: \<^verbatim>\<open>add_sentences_to_chromadb\<close>\<close>

text \<open>
  The vector store is a service outside this program. The model keeps what the program can
  see of it: the calls that are made, in order, and for each call whether the store raises.
  \<^verbatim>\<open>store_raises\<close> takes the calls made so far and the call being made.
\<close>

datatype store_call =
    NewClient
  | GetOrCreateCollection string
  | CollectionAdd string "string list" "string list"

record store =
  store_raises :: "store_call list \<Rightarrow> store_call \<Rightarrow> py_exception option"
  store_calls :: "store_call list"

definition store_invoke :: "store \<Rightarrow> store_call \<Rightarrow> py_exception option \<times> store" where
  "store_invoke st c =
     (store_raises st (store_calls st) c, st\<lparr>store_calls := store_calls st @ [c]\<rparr>)"

text \<open>The collection object that the store hands out, known by its name.\<close>

datatype collection = Collection (collection_name: string)

definition default_collection_name :: string where
  "default_collection_name = ''sentences_collection''"

text \<open>\<^verbatim>\<open>[f"sentence-{i}" for i in range(len(sentences))]\<close>\<close>

definition sentence_ids :: "string list \<Rightarrow> string list" where
  "sentence_ids sentences =
     map (\<lambda>i. ''sentence-'' @ str_int (int i)) [0..<length sentences]"

text \<open>
  \<^verbatim>\<open>add_sentences_to_chromadb\<close>: a client is made, the collection is obtained or created,
  the identifiers are computed, and one \<^verbatim>\<open>collection.add\<close> is issued. There is no
  \<^verbatim>\<open>try\<close> in the function: an exception of the store leaves it at once (\<open>Inl\<close>).
\<close>

definition add_sentences_to_chromadb ::
  "string list \<Rightarrow> string \<Rightarrow> store \<Rightarrow> (py_exception + collection) \<times> store" where
  "add_sentences_to_chromadb sentences name st =
     (case store_invoke st NewClient of
        (Some e, st1) \<Rightarrow> (Inl e, st1)
      | (None, st1) \<Rightarrow>
          (case store_invoke st1 (GetOrCreateCollection name) of
             (Some e, st2) \<Rightarrow> (Inl e, st2)
           | (None, st2) \<Rightarrow>
               (let ids = sentence_ids sentences in
                case store_invoke st2 (CollectionAdd name sentences ids) of
                  (Some e, st3) \<Rightarrow> (Inl e, st3)
                | (None, st3) \<Rightarrow> (Inr (Collection name), st3))))"

section \<open>Sample stores and environments\<close>

text \<open>
  A store that refuses an insertion with no identifiers, the way the validation of a batch
  does in the store's client library, and accepts every other call.
\<close>

definition nonempty_ids_store :: store where
  "nonempty_ids_store =
     \<lparr>store_raises = (\<lambda>hist c.
        case c of
          CollectionAdd n docs ids \<Rightarrow>
            (if ids = []
             then Some (PyException ''ValueError'' ''Expected IDs to be a non-empty list'')
             else None)
        | _ \<Rightarrow> None),
      store_calls = []\<rparr>"

text \<open>A store that accepts every call.\<close>

definition accepting_store :: store where
  "accepting_store = \<lparr>store_raises = (\<lambda>hist c. None), store_calls = []\<rparr>"

text \<open>A store whose collection creation fails, and one whose insertion fails.\<close>

definition failing_create_store :: store where
  "failing_create_store =
     \<lparr>store_raises = (\<lambda>hist c.
        case c of
          GetOrCreateCollection n \<Rightarrow> Some (PyException ''RuntimeError'' ''no collection'')
        | _ \<Rightarrow> None),
      store_calls = []\<rparr>"

definition failing_add_store :: store where
  "failing_add_store =
     \<lparr>store_raises = (\<lambda>hist c.
        case c of
          CollectionAdd n docs ids \<Rightarrow> Some (PyException ''RuntimeError'' ''insertion failed'')
        | _ \<Rightarrow> None),
      store_calls = []\<rparr>"

text \<open>Environments: the executable is missing, the launch fails, the process exits.\<close>

definition world_missing :: world where
  "world_missing =
     \<lparr>which = (\<lambda>cmd. None),
      run_outcome = (\<lambda>args input. Inr \<lparr>returncode = 0, stdout = ''never'', stderr = []\<rparr>),
      run_calls = []\<rparr>"

definition world_launch_failure :: world where
  "world_launch_failure =
     \<lparr>which = (\<lambda>cmd. Some ''/usr/local/bin/ollama''),
      run_outcome = (\<lambda>args input. Inl (PyException ''PermissionError'' ''Permission denied'')),
      run_calls = []\<rparr>"

definition world_exit :: "int \<Rightarrow> string \<Rightarrow> string \<Rightarrow> world" where
  "world_exit rc out err =
     \<lparr>which = (\<lambda>cmd. Some ''/usr/local/bin/ollama''),
      run_outcome = (\<lambda>args input. Inr \<lparr>returncode = rc, stdout = out, stderr = err\<rparr>),
      run_calls = []\<rparr>"

section \<open>Names for the lines of the prompt\<close>

text \<open>
  The texts of the template, without their indentation, and the indentation itself. They are
  used to state what the prompt looks like.
\<close>

definition indent8 :: string where
  "indent8 = ''        ''"

definition instruction_line1 :: string where
  \<open>instruction_line1 =
     ''You are a helpful assistant. Use only the provided context to answer the user's''\<close>

definition instruction_line2 :: string where
  \<open>instruction_line2 =
     ''question. If the answer is not in the context, say you don't know.''\<close>

text \<open>The first line of a text, and the lines after it once \<^verbatim>\<open>dedent\<close> has blanked them.\<close>

definition first_line :: "string \<Rightarrow> string" where
  "first_line s = hd (split_nl s)"

definition later_lines :: "string \<Rightarrow> string list" where
  "later_lines s = map blank_line (tl (split_nl s))"

text \<open>The strings that hold no line feed.\<close>

definition single_line :: "string \<Rightarrow> bool" where
  "single_line s = (nl \<notin> set s)"

section \<open>Reading a decimal numeral\<close>

text \<open>
  The value of a string of decimal digits. It is used to state that the text which
  \<^verbatim>\<open>str\<close> makes of an \<^verbatim>\<open>int\<close> is the decimal numeral of that number.
\<close>

definition decimal_value :: "string \<Rightarrow> nat" where
  "decimal_value s = foldl (\<lambda>a c. 10 * a + (of_char c - 48)) 0 s"

definition is_digit :: "char \<Rightarrow> bool" where
  "is_digit c = (c \<in> set ''0123456789'')"

section \<open>Facts about the string functions\<close>

lemma isspace_takeWhile: "\<forall>c\<in>set (takeWhile isspace s). isspace c"
  by (auto dest: set_takeWhileD)

lemma rstrip_decomp: "t = rstrip t @ rev (takeWhile isspace (rev t))"
  by (simp add: rstrip_def flip: rev_append)

lemma strip_decomp:
  "s = takeWhile isspace s @ strip s @ rev (takeWhile isspace (rev (lstrip s)))"
proof -
  have "s = takeWhile isspace s @ lstrip s" by (simp add: lstrip_def)
  also have "lstrip s = strip s @ rev (takeWhile isspace (rev (lstrip s)))"
    unfolding strip_def by (rule rstrip_decomp)
  finally show ?thesis by simp
qed

lemma strip_last: "strip s \<noteq> [] \<Longrightarrow> \<not> isspace (last (strip s))"
  unfolding strip_def rstrip_def
  by (simp add: last_rev hd_dropWhile)

lemma strip_hd: "strip s \<noteq> [] \<Longrightarrow> \<not> isspace (hd (strip s))"
proof -
  assume ne: "strip s \<noteq> []"
  have eq: "lstrip s = strip s @ rev (takeWhile isspace (rev (lstrip s)))"
    unfolding strip_def by (rule rstrip_decomp)
  from ne eq have "hd (lstrip s) = hd (strip s)" by (metis hd_append2)
  moreover from ne eq have "lstrip s \<noteq> []" by auto
  then have "\<not> isspace (hd (lstrip s))" unfolding lstrip_def by (rule hd_dropWhile)
  ultimately show ?thesis by simp
qed

lemma call_missing:
  "which w ''ollama'' = None \<Longrightarrow>
   call_llama_with_context q docs w = (Inr ollama_missing_message, w)"
  by (simp add: call_llama_with_context_def ensure_ollama_available_def shutil_which_def
      ollama_missing_message_def)

lemma call_present:
  "which w ''ollama'' = Some p \<Longrightarrow>
   call_llama_with_context q docs w =
     (case run_outcome w ollama_argv (build_prompt q docs) of
        Inl e \<Rightarrow> Inr (''Failed to invoke Ollama: '' @ exc_str e)
      | Inr proc \<Rightarrow>
          if returncode proc \<noteq> 0
          then Inr (''Ollama returned non-zero exit code '' @ str_int (returncode proc) @
                    '': '' @ strip (stderr proc))
          else Inr (strip (stdout proc)),
      w\<lparr>run_calls := run_calls w @ [(ollama_argv, build_prompt q docs)]\<rparr>)"
  by (simp add: call_llama_with_context_def ensure_ollama_available_def shutil_which_def
      subprocess_run_def Let_def split: sum.splits)

lemma str_nat_nonempty: "str_nat n \<noteq> []"
  by (subst str_nat.simps) simp

lemma digit_char_inj: "a < 10 \<Longrightarrow> b < 10 \<Longrightarrow> digit_char a = digit_char b \<Longrightarrow> a = b"
proof -
  assume a: "a < 10" and b: "b < 10" and eq: "digit_char a = digit_char b"
  have d: "distinct ''0123456789''" by simp
  have "length ''0123456789'' = 10" by simp
  with a b d eq show "a = b"
    unfolding digit_char_def by (simp only: nth_eq_iff_index_eq)
qed

lemma str_nat_inj: "str_nat n = str_nat m \<Longrightarrow> n = m"
proof (induction n arbitrary: m rule: str_nat.induct)
  case (1 n)
  show ?case
  proof (cases "n < 10")
    case small_n: True
    show ?thesis
    proof (cases "m < 10")
      case True
      with small_n "1.prems" show ?thesis
        by (simp add: str_nat.simps [of n] str_nat.simps [of m] digit_char_inj)
    next
      case False
      with small_n "1.prems" str_nat_nonempty [of "m div 10"] show ?thesis
        by (simp add: str_nat.simps [of n] str_nat.simps [of m])
    qed
  next
    case big_n: False
    show ?thesis
    proof (cases "m < 10")
      case True
      with big_n "1.prems" str_nat_nonempty [of "n div 10"] show ?thesis
        by (simp add: str_nat.simps [of n] str_nat.simps [of m])
    next
      case False
      with big_n "1.prems" have init: "str_nat (n div 10) = str_nat (m div 10)"
        and lst: "digit_char (n mod 10) = digit_char (m mod 10)"
        by (simp_all add: str_nat.simps [of n] str_nat.simps [of m])
      from "1.IH" [OF big_n init] have "n div 10 = m div 10" .
      moreover from lst have "n mod 10 = m mod 10" by (simp add: digit_char_inj)
      ultimately show ?thesis by (metis div_mult_mod_eq)
    qed
  qed
qed

lemma str_int_of_nat: "str_int (int i) = str_nat i"
  by (simp add: str_int_def)

lemma sentence_ids_length: "length (sentence_ids sentences) = length sentences"
  by (simp add: sentence_ids_def)

lemma sentence_ids_nth:
  "i < length sentences \<Longrightarrow> sentence_ids sentences ! i = ''sentence-'' @ str_nat i"
  by (simp add: sentence_ids_def str_int_of_nat)

lemma sentence_ids_distinct: "distinct (sentence_ids sentences)"
  unfolding sentence_ids_def
  by (auto simp: distinct_map inj_on_def str_int_of_nat dest: str_nat_inj)

lemma add_sentences_trace:
  "store_raises st (store_calls st) NewClient = None \<Longrightarrow>
   store_raises st (store_calls st @ [NewClient]) (GetOrCreateCollection name) = None \<Longrightarrow>
   add_sentences_to_chromadb sentences name st =
     (case store_raises st (store_calls st @ [NewClient, GetOrCreateCollection name])
             (CollectionAdd name sentences (sentence_ids sentences)) of
        Some e \<Rightarrow> Inl e
      | None \<Rightarrow> Inr (Collection name),
      st\<lparr>store_calls := store_calls st @
          [NewClient, GetOrCreateCollection name,
           CollectionAdd name sentences (sentence_ids sentences)]\<rparr>)"
  by (simp add: add_sentences_to_chromadb_def store_invoke_def Let_def split: option.splits)

lemma missing_message_names:
  "sublist ''Ollama CLI not found'' ollama_missing_message"
  "sublist ''https://ollama.com'' ollama_missing_message"
  by code_simp+

lemma digit_char_value: "d < 10 \<Longrightarrow> of_char (digit_char d) = (48 + d :: nat)"
proof -
  assume "d < 10"
  then have "d = 0 \<or> d = 1 \<or> d = 2 \<or> d = 3 \<or> d = 4 \<or> d = 5 \<or> d = 6 \<or> d = 7 \<or>
      d = 8 \<or> d = 9" by presburger
  then show ?thesis by (elim disjE) (simp_all add: digit_char_def)
qed

lemma digit_char_digit: "d < 10 \<Longrightarrow> is_digit (digit_char d)"
proof -
  assume "d < 10"
  then have "d < length ''0123456789''" by simp
  then show ?thesis unfolding is_digit_def digit_char_def by (rule nth_mem)
qed

lemma decimal_value_snoc: "decimal_value (s @ [c]) = 10 * decimal_value s + (of_char c - 48)"
  by (simp add: decimal_value_def)

lemma decimal_value_str_nat: "decimal_value (str_nat n) = n"
proof (induction n rule: str_nat.induct)
  case (1 n)
  show ?case
  proof (cases "n < 10")
    case True
    then show ?thesis
      by (simp add: str_nat.simps [of n] decimal_value_def digit_char_value)
  next
    case False
    with "1.IH" have "decimal_value (str_nat (n div 10)) = n div 10" by simp
    with False show ?thesis
      by (simp add: str_nat.simps [of n] decimal_value_snoc digit_char_value)
  qed
qed

lemma str_nat_digits: "\<forall>c\<in>set (str_nat n). is_digit c"
proof (induction n rule: str_nat.induct)
  case (1 n)
  show ?case
  proof (cases "n < 10")
    case True
    then show ?thesis by (simp add: str_nat.simps [of n] digit_char_digit)
  next
    case False
    with "1.IH" show ?thesis by (simp add: str_nat.simps [of n] digit_char_digit)
  qed
qed

lemma str_int_decimal:
  "(0 \<le> i \<longrightarrow> (\<forall>c\<in>set (str_int i). is_digit c) \<and> int (decimal_value (str_int i)) = i) \<and>
   (i < 0 \<longrightarrow> (\<exists>ds. str_int i = CHR ''-'' # ds \<and> (\<forall>c\<in>set ds. is_digit c) \<and>
                  int (decimal_value ds) = - i))"
  by (auto simp: str_int_def str_nat_digits decimal_value_str_nat)

section \<open>Lines, margins and the prompt\<close>

subsection \<open>Lines\<close>

lemma split_nl_nonempty [simp]: "split_nl s \<noteq> []"
  by (induction s) (auto split: list.splits)

lemma split_nl_single: "nl \<notin> set s \<Longrightarrow> split_nl s = [s]"
  by (induction s) auto

lemma split_nl_append_nl: "split_nl (a @ nl # b) = split_nl a @ split_nl b"
  by (induction a) (auto split: list.splits)

lemma split_nl_prefix:
  "nl \<notin> set p \<Longrightarrow> split_nl (p @ s) = (p @ hd (split_nl s)) # tl (split_nl s)"
  by (induction p) (auto split: list.splits)

lemma split_nl_line: "l \<in> set (split_nl s) \<Longrightarrow> nl \<notin> set l"
  by (induction s arbitrary: l) (auto split: if_splits list.splits)

lemma join_Cons_Cons: "join sep ((c # l) # ls) = c # join sep (l # ls)"
  by (cases ls) auto

lemma join_prefix: "join sep ((p @ l) # ls) = p @ join sep (l # ls)"
  by (cases ls) auto

lemma join_split_nl: "join [nl] (split_nl s) = s"
  by (induction s) (auto simp: join_Cons_Cons split: list.splits)

lemma join_append:
  "xs \<noteq> [] \<Longrightarrow> ys \<noteq> [] \<Longrightarrow> join sep (xs @ ys) = join sep xs @ sep @ join sep ys"
  by (induction sep xs rule: join.induct) (auto simp: neq_Nil_conv)

lemma join_Cons: "ls \<noteq> [] \<Longrightarrow> join sep (l # ls) = l @ sep @ join sep ls"
  by (cases ls) auto

lemma split_nl_join_concat:
  "ls \<noteq> [] \<Longrightarrow> split_nl (join [nl] ls) = concat (map split_nl ls)"
proof (induction "[nl]" ls rule: join.induct)
  case 1
  then show ?case by simp
next
  case (2 x)
  then show ?case by simp
next
  case (3 x y ys)
  then show ?case by (simp add: split_nl_append_nl)
qed

lemma concat_split_nl_single:
  "\<forall>l\<in>set ls. nl \<notin> set l \<Longrightarrow> concat (map split_nl ls) = ls"
  by (induction ls) (simp_all add: split_nl_single)

lemma split_nl_join:
  "ls \<noteq> [] \<Longrightarrow> \<forall>l\<in>set ls. nl \<notin> set l \<Longrightarrow> split_nl (join [nl] ls) = ls"
  by (simp add: split_nl_join_concat concat_split_nl_single)

lemma hd_join: "l \<noteq> [] \<Longrightarrow> hd (join sep (l # ls)) = hd l"
  by (cases ls) auto

lemma join_snoc_nonempty: "l \<noteq> [] \<Longrightarrow> join sep (ls @ [l]) \<noteq> []"
  by (induction sep ls rule: join.induct) auto

lemma last_join: "l \<noteq> [] \<Longrightarrow> last (join sep (ls @ [l])) = last l"
proof (induction sep ls rule: join.induct)
  case (3 sep x y ys)
  from join_snoc_nonempty [OF "3.prems", of sep "y # ys"] "3.IH" [OF "3.prems"]
  show ?case by simp
qed simp_all

subsection \<open>Blank lines and indents\<close>

lemma whitespace_only_iff: "whitespace_only l \<longleftrightarrow> l \<noteq> [] \<and> (\<forall>c\<in>set l. is_sptab c)"
  by (simp add: whitespace_only_def dropWhile_eq_Nil_conv)

lemma blank_line_no_nl: "nl \<notin> set l \<Longrightarrow> nl \<notin> set (blank_line l)"
  by (simp add: blank_line_def)

lemma blank_line_Nil [simp]: "blank_line [] = []"
  by (simp add: blank_line_def)

lemma blank_line_text:
  "\<not> is_sptab c \<Longrightarrow> blank_line (p @ c # r) = p @ c # r"
  by (auto simp: blank_line_def whitespace_only_iff)

lemma blank_line_idem [simp]: "blank_line (blank_line l) = blank_line l"
  by (simp add: blank_line_def whitespace_only_iff)

lemma whitespace_only_sub_lines:
  "split_nl (whitespace_only_sub text) = map blank_line (split_nl text)"
  unfolding whitespace_only_sub_def
  by (rule split_nl_join) (auto dest: split_nl_line simp: blank_line_no_nl)

lemma whitespace_only_blank [simp]: "\<not> whitespace_only (blank_line l)"
  by (simp add: blank_line_def whitespace_only_iff)

subsection \<open>The margin\<close>

lemma margin_step_Nil: "margin_step m [] = Some []"
  by (cases m) auto

lemma foldl_margin_Nil: "foldl margin_step (Some []) xs = Some []"
  by (induction xs) auto

lemma margin_with_empty_indent: "[] \<in> set xs \<Longrightarrow> foldl margin_step None xs = Some []"
  by (auto simp: in_set_conv_decomp margin_step_Nil foldl_margin_Nil)

lemma foldl_margin_prefix:
  "\<forall>i\<in>set xs. prefix m i \<Longrightarrow> foldl margin_step (Some m) xs = Some m"
  by (induction xs) auto

text \<open>The function \<^verbatim>\<open>dedent\<close> on the lines of the text.\<close>

lemma dedent_no_margin:
  assumes "[] \<in> set (map (takeWhile is_sptab)
             (filter (\<lambda>l. dropWhile is_sptab l \<noteq> []) (map blank_line (split_nl text))))"
  shows "dedent text = join [nl] (map blank_line (split_nl text))"
proof -
  from assms have "foldl margin_step None (leading_whitespace_findall (whitespace_only_sub text))
      = Some []"
    unfolding leading_whitespace_findall_def whitespace_only_sub_lines
    by (rule margin_with_empty_indent)
  then show ?thesis
    by (simp add: dedent_def Let_def whitespace_only_sub_def)
qed

lemma dedent_margin:
  assumes "map (takeWhile is_sptab)
             (filter (\<lambda>l. dropWhile is_sptab l \<noteq> []) (map blank_line (split_nl text))) = m # is"
    and "\<forall>i\<in>set is. prefix m i" and "m \<noteq> []"
  shows "dedent text = join [nl] (map (remove_margin m \<circ> blank_line) (split_nl text))"
proof -
  from assms(1,2)
  have "foldl margin_step None (leading_whitespace_findall (whitespace_only_sub text)) = Some m"
    unfolding leading_whitespace_findall_def whitespace_only_sub_lines
    by (simp add: foldl_margin_prefix)
  with assms(3) show ?thesis
    by (simp add: dedent_def Let_def whitespace_only_sub_lines)
qed

subsection \<open>Stripping\<close>

lemma strip_core:
  assumes "\<forall>c\<in>set a. isspace c" and "\<forall>c\<in>set b. isspace c"
    and "m \<noteq> []" and "\<not> isspace (hd m)" and "\<not> isspace (last m)"
  shows "strip (a @ m @ b) = m"
proof -
  from assms(3) obtain c r where m: "m = c # r" by (cases m) auto
  with assms(4) have c: "\<not> isspace c" by simp
  have l: "lstrip (a @ m @ b) = m @ b"
    unfolding lstrip_def m using assms(1) c by (simp add: dropWhile_append2)
  from assms(3) obtain r' c' where m': "rev m = c' # r'" by (cases "rev m") auto
  then have "last m = c'" by (metis last_rev list.sel(1) rev_rev_ident)
  with assms(5) have c': "\<not> isspace c'" by simp
  have "rstrip (m @ b) = rev (dropWhile isspace (rev b @ rev m))"
    by (simp add: rstrip_def)
  also have "dropWhile isspace (rev b @ rev m) = dropWhile isspace (rev m)"
    by (rule dropWhile_append2) (use assms(2) in simp)
  also have "dropWhile isspace (rev m) = rev m"
    unfolding m' using c' by simp
  finally have "rstrip (m @ b) = m" by simp
  with l show ?thesis by (simp add: strip_def)
qed

subsection \<open>The lines of the template\<close>

lemma indent8_sptab: "\<forall>c\<in>set indent8. is_sptab c"
  by (simp add: indent8_def is_sptab_def)

lemma indent8_space: "\<forall>c\<in>set indent8. isspace c"
  by (simp add: indent8_def isspace_def)

lemma indent8_nonempty: "indent8 \<noteq> []"
  by (simp add: indent8_def)

lemma template_no_nl:
  "nl \<notin> set indent8" "nl \<notin> set instruction_line1" "nl \<notin> set instruction_line2"
  by (simp_all add: indent8_def instruction_line1_def instruction_line2_def)

lemma instruction_line1_ends:
  "instruction_line1 \<noteq> []" "\<not> isspace (hd instruction_line1)" "\<not> is_sptab (hd instruction_line1)"
  by (simp_all add: instruction_line1_def isspace_def is_sptab_def)

lemma instruction_line2_start:
  "instruction_line2 \<noteq> []" "\<not> is_sptab (hd instruction_line2)"
  by (simp_all add: instruction_line2_def is_sptab_def)

lemma prompt_template_join:
  "prompt_template ctx q =
     join [nl] [ [], indent8 @ instruction_line1, indent8 @ instruction_line2, [],
                indent8 @ ''Context:'', indent8 @ ctx, [], (indent8 @ ''Question: '') @ q,
                indent8 @ ''Answer:'', indent8]"
  by (simp add: prompt_template_def indent8_def instruction_line1_def instruction_line2_def)

lemma template_lines:
  "split_nl (prompt_template ctx q) =
     [ [], indent8 @ instruction_line1, indent8 @ instruction_line2, [], indent8 @ ''Context:'']
     @ ((indent8 @ first_line ctx) # tl (split_nl ctx))
     @ [ []]
     @ ((indent8 @ ''Question: '' @ first_line q) # tl (split_nl q))
     @ [indent8 @ ''Answer:'', indent8]"
proof -
  have a: "split_nl (indent8 @ instruction_line1) = [indent8 @ instruction_line1]"
    "split_nl (indent8 @ instruction_line2) = [indent8 @ instruction_line2]"
    "split_nl (indent8 @ ''Context:'') = [indent8 @ ''Context:'']"
    "split_nl (indent8 @ ''Answer:'') = [indent8 @ ''Answer:'']"
    "split_nl indent8 = [indent8]"
    by (simp_all add: split_nl_single template_no_nl)
  have b: "split_nl (indent8 @ ctx) = (indent8 @ first_line ctx) # tl (split_nl ctx)"
    by (simp add: split_nl_prefix template_no_nl first_line_def)
  have "nl \<notin> set (indent8 @ ''Question: '')" by (simp add: template_no_nl)
  then have c: "split_nl ((indent8 @ ''Question: '') @ q) =
      ((indent8 @ ''Question: '') @ first_line q) # tl (split_nl q)"
    unfolding first_line_def by (rule split_nl_prefix)
  have "split_nl (prompt_template ctx q) =
      concat (map split_nl [ [], indent8 @ instruction_line1, indent8 @ instruction_line2, [],
                indent8 @ ''Context:'', indent8 @ ctx, [], (indent8 @ ''Question: '') @ q,
                indent8 @ ''Answer:'', indent8])"
    unfolding prompt_template_join by (rule split_nl_join_concat) simp
  also have "\<dots> = [ [], indent8 @ instruction_line1, indent8 @ instruction_line2, [],
       indent8 @ ''Context:'']
     @ ((indent8 @ first_line ctx) # tl (split_nl ctx))
     @ [ []]
     @ (((indent8 @ ''Question: '') @ first_line q) # tl (split_nl q))
     @ [indent8 @ ''Answer:'', indent8]"
    by (simp only: list.map concat.simps a b c split_nl.simps(1)) simp
  finally show ?thesis by simp
qed

subsection \<open>The lines of the context block\<close>

lemma bullet_split: "split_nl (''- '' @ d) = (''- '' @ first_line d) # tl (split_nl d)"
proof -
  have "nl \<notin> set ''- ''" by simp
  then show ?thesis unfolding first_line_def by (rule split_nl_prefix)
qed

lemma context_block_Nil: "context_block [] = []"
  by (simp add: context_block_def)

lemma context_block_Cons2:
  "context_block (d # d' # ds) = (''- '' @ d) @ nl # nl # context_block (d' # ds)"
  by (simp add: context_block_def)

lemma context_block_lines:
  "split_nl (context_block (d # ds)) =
     ((''- '' @ first_line d) # tl (split_nl d)) @
     concat (map (\<lambda>d'. [] # (''- '' @ first_line d') # tl (split_nl d')) ds)"
proof (induction ds arbitrary: d)
  case Nil
  have "context_block [d] = ''- '' @ d" by (simp add: context_block_def)
  then show ?case by (simp only: bullet_split) simp
next
  case (Cons d' ds)
  have "split_nl (context_block (d # d' # ds)) =
          split_nl (''- '' @ d) @ split_nl (nl # context_block (d' # ds))"
    unfolding context_block_Cons2 by (rule split_nl_append_nl)
  also have "split_nl (nl # context_block (d' # ds)) = [] # split_nl (context_block (d' # ds))"
    by simp
  finally show ?case
    by (simp only: Cons.IH bullet_split) simp
qed

lemma blank_line_keep: "\<exists>c\<in>set l. \<not> is_sptab c \<Longrightarrow> blank_line l = l"
  by (auto simp: blank_line_def whitespace_only_iff)

lemma blank_line_indent8 [simp]: "blank_line indent8 = []"
  by (simp add: blank_line_def whitespace_only_iff indent8_sptab)

lemma blank_line_head: "\<not> is_sptab c \<Longrightarrow> blank_line (c # r) = c # r"
  using blank_line_text [of c "[]" r] by simp

lemma blank_template_lines:
  "blank_line (indent8 @ instruction_line1) = indent8 @ instruction_line1"
  "blank_line (indent8 @ instruction_line2) = indent8 @ instruction_line2"
  by (rule blank_line_keep, simp add: instruction_line1_def instruction_line2_def is_sptab_def)+

lemmas blank_simps = blank_template_lines blank_line_text blank_line_head is_sptab_def

text \<open>The text after the first step of \<^verbatim>\<open>dedent\<close>, for no document and for some.\<close>

lemma blanked_lines_none:
  "map blank_line (split_nl (prompt_template (context_block []) q)) =
     [] # (indent8 @ instruction_line1) #
     ([indent8 @ instruction_line2, [], indent8 @ ''Context:'', [], [],
       indent8 @ ''Question: '' @ first_line q] @ later_lines q) @
     [indent8 @ ''Answer:'', []]"
  by (simp add: template_lines context_block_Nil blank_simps later_lines_def
      first_line_def)

lemma blanked_lines_some:
  "map blank_line (split_nl (prompt_template (context_block (d # ds)) q)) =
     [] # (indent8 @ instruction_line1) #
     ([indent8 @ instruction_line2, [], indent8 @ ''Context:'',
       indent8 @ ''- '' @ first_line d] @ later_lines d @
      concat (map (\<lambda>d'. [] # (''- '' @ first_line d') # later_lines d') ds) @
      [ [], indent8 @ ''Question: '' @ first_line q] @ later_lines q) @
     [indent8 @ ''Answer:'', []]"
proof -
  have f: "first_line (context_block (d # ds)) = ''- '' @ first_line d"
    unfolding first_line_def [of "context_block (d # ds)"] context_block_lines by simp
  have t: "tl (split_nl (context_block (d # ds))) =
      tl (split_nl d) @ concat (map (\<lambda>d'. [] # (''- '' @ first_line d') # tl (split_nl d')) ds)"
    unfolding context_block_lines by simp
  have m: "map blank_line (concat (map (\<lambda>d'. [] # (''- '' @ first_line d') # tl (split_nl d')) ds))
      = concat (map (\<lambda>d'. [] # (''- '' @ first_line d') # later_lines d') ds)"
    by (induction ds) (simp_all add: blank_simps later_lines_def)
  show ?thesis
    unfolding template_lines f t
    using m by (simp add: blank_simps later_lines_def)
qed

subsection \<open>From the dedented lines to the prompt\<close>

lemma join_snoc_Nil: "xs \<noteq> [] \<Longrightarrow> join sep (xs @ [ []]) = join sep xs @ sep"
  by (simp add: join_append)

lemma strip_join_lines:
  assumes "\<forall>c\<in>set ws. isspace c" and "f \<noteq> []" and "\<not> isspace (hd f)"
    and "lst \<noteq> []" and "\<not> isspace (last lst)"
  shows "strip (join [nl] ([] # (ws @ f) # mid @ [lst, []])) = join [nl] (f # mid @ [lst])"
proof -
  let ?m = "join [nl] (f # mid @ [lst])"
  have "join [nl] ([] # (ws @ f) # mid @ [lst, []]) =
          [nl] @ join [nl] (((ws @ f) # mid @ [lst]) @ [ []])"
    by (simp add: join_Cons)
  also have "join [nl] (((ws @ f) # mid @ [lst]) @ [ []]) = join [nl] ((ws @ f) # mid @ [lst]) @ [nl]"
    by (rule join_snoc_Nil) simp
  also have "join [nl] ((ws @ f) # mid @ [lst]) = ws @ ?m"
    by (rule join_prefix)
  finally have eq: "join [nl] ([] # (ws @ f) # mid @ [lst, []]) = (nl # ws) @ ?m @ [nl]"
    by simp
  have ne: "?m \<noteq> []"
    using join_snoc_nonempty [OF assms(4), of "[nl]" "f # mid"] by simp
  have h: "hd ?m = hd f" using assms(2) by (rule hd_join)
  have l: "last ?m = last lst"
    using last_join [OF assms(4), of "[nl]" "f # mid"] by simp
  have a: "\<forall>c\<in>set (nl # ws). isspace c" using assms(1) by (simp add: isspace_def)
  have b: "\<forall>c\<in>set [nl]. isspace c" by (simp add: isspace_def)
  show ?thesis
    unfolding eq
    by (rule strip_core [OF a b ne]) (simp_all add: h l assms)
qed

lemma empty_indent_line:
  assumes "l \<in> set ls" and "l \<noteq> []" and "\<not> is_sptab (hd l)"
  shows "[] \<in> set (map (takeWhile is_sptab) (filter (\<lambda>l. dropWhile is_sptab l \<noteq> []) ls))"
proof -
  from assms(2) obtain c r where l: "l = c # r" by (cases l) auto
  with assms(3) have "dropWhile is_sptab l \<noteq> []" "takeWhile is_sptab l = []" by simp_all
  with assms(1) show ?thesis by force
qed

lemma answer_line: "indent8 @ ''Answer:'' \<noteq> []" "\<not> isspace (last (indent8 @ ''Answer:''))"
  by (simp_all add: isspace_def)

text \<open>Two documents or more: a bullet at column zero leaves no margin to remove.\<close>

lemma prompt_many:
  "build_prompt q (d1 # d2 # ds) =
     join [nl] (instruction_line1 #
       ([indent8 @ instruction_line2, [], indent8 @ ''Context:'',
         indent8 @ ''- '' @ first_line d1] @ later_lines d1 @
        concat (map (\<lambda>d'. [] # (''- '' @ first_line d') # later_lines d') (d2 # ds)) @
        [ [], indent8 @ ''Question: '' @ first_line q] @ later_lines q) @
       [indent8 @ ''Answer:''])"
proof -
  let ?T = "prompt_template (context_block (d1 # d2 # ds)) q"
  have "''- '' @ first_line d2 \<in> set (map blank_line (split_nl ?T))"
    unfolding blanked_lines_some by simp
  then have "[] \<in> set (map (takeWhile is_sptab)
      (filter (\<lambda>l. dropWhile is_sptab l \<noteq> []) (map blank_line (split_nl ?T))))"
    by (rule empty_indent_line) (simp_all add: is_sptab_def)
  then have "dedent ?T = join [nl] (map blank_line (split_nl ?T))"
    by (rule dedent_no_margin)
  then show ?thesis
    unfolding build_prompt_def blanked_lines_some
    by (simp only:)
      (rule strip_join_lines [OF indent8_space instruction_line1_ends(1,2) answer_line])
qed

subsection \<open>At most one document: the margin of eight spaces\<close>

lemma takeWhile_indent8:
  "prefix indent8 l \<Longrightarrow> prefix indent8 (takeWhile is_sptab l)"
proof -
  assume "prefix indent8 l"
  then obtain r where l: "l = indent8 @ r" by (auto simp: prefix_def)
  have "takeWhile is_sptab (indent8 @ r) = indent8 @ takeWhile is_sptab r"
    by (rule takeWhile_append2) (use indent8_sptab in simp)
  then show ?thesis by (simp add: l)
qed

lemma indents_prefixed:
  assumes "\<forall>l\<in>set ls. l = [] \<or> prefix indent8 l"
  shows "\<forall>i\<in>set (map (takeWhile is_sptab) (filter (\<lambda>l. dropWhile is_sptab l \<noteq> []) ls)).
           prefix indent8 i"
  using assms by (auto simp: takeWhile_indent8)

lemma indent_of_text:
  assumes "\<not> is_sptab c"
  shows "dropWhile is_sptab (indent8 @ c # r) = c # r"
    and "takeWhile is_sptab (indent8 @ c # r) = indent8"
proof -
  have "dropWhile is_sptab (indent8 @ c # r) = dropWhile is_sptab (c # r)"
    by (rule dropWhile_append2) (use indent8_sptab in simp)
  with assms show "dropWhile is_sptab (indent8 @ c # r) = c # r" by simp
  have "takeWhile is_sptab (indent8 @ c # r) = indent8 @ takeWhile is_sptab (c # r)"
    by (rule takeWhile_append2) (use indent8_sptab in simp)
  with assms show "takeWhile is_sptab (indent8 @ c # r) = indent8" by simp
qed

lemma first_indent:
  "dropWhile is_sptab (indent8 @ instruction_line1) \<noteq> []"
  "takeWhile is_sptab (indent8 @ instruction_line1) = indent8"
proof -
  from instruction_line1_ends(1) obtain c r where i: "instruction_line1 = c # r"
    by (auto simp: neq_Nil_conv)
  with instruction_line1_ends(3) have c: "\<not> is_sptab c" by (metis list.sel(1))
  from indent_of_text [OF c, of r]
  show "dropWhile is_sptab (indent8 @ instruction_line1) \<noteq> []"
    "takeWhile is_sptab (indent8 @ instruction_line1) = indent8"
    unfolding i by simp_all
qed

lemma remove_margin_indent8 [simp]:
  "remove_margin indent8 (indent8 @ x) = x"
  "remove_margin indent8 [] = []"
  by (simp_all add: remove_margin_def indent8_nonempty)

text \<open>
  When the blanked text is an empty line, the first instruction line and further lines that
  are empty or start with eight spaces, \<^verbatim>\<open>dedent\<close> removes eight spaces from each.
\<close>

lemma dedent_indent8:
  assumes "map blank_line (split_nl text) = [] # (indent8 @ instruction_line1) # rest"
    and "\<forall>l\<in>set rest. l = [] \<or> prefix indent8 l"
  shows "dedent text = join [nl] ([] # instruction_line1 # map (remove_margin indent8) rest)"
proof -
  have "map (takeWhile is_sptab)
          (filter (\<lambda>l. dropWhile is_sptab l \<noteq> []) (map blank_line (split_nl text))) =
        indent8 # map (takeWhile is_sptab) (filter (\<lambda>l. dropWhile is_sptab l \<noteq> []) rest)"
    unfolding assms(1) by (simp add: first_indent del: dropWhile_eq_Nil_conv)
  then have "dedent text =
      join [nl] (map (remove_margin indent8 \<circ> blank_line) (split_nl text))"
    using indents_prefixed [OF assms(2)] indent8_nonempty by (rule dedent_margin)
  also have "map (remove_margin indent8 \<circ> blank_line) (split_nl text) =
      map (remove_margin indent8) (map blank_line (split_nl text))" by simp
  finally show ?thesis unfolding assms(1) by simp
qed

lemma answer_cue: "''Answer:'' \<noteq> []" "\<not> isspace (last ''Answer:'')"
  by (simp_all add: isspace_def)

lemma prompt_none:
  assumes "\<forall>l\<in>set (later_lines q). l = [] \<or> prefix indent8 l"
  shows "build_prompt q [] =
     join [nl] (instruction_line1 #
       ([instruction_line2, [], ''Context:'', [], [], ''Question: '' @ first_line q] @
        map (remove_margin indent8) (later_lines q)) @
       [''Answer:''])"
proof -
  let ?T = "prompt_template (context_block []) q"
  let ?rest = "([indent8 @ instruction_line2, [], indent8 @ ''Context:'', [], [],
       indent8 @ ''Question: '' @ first_line q] @ later_lines q) @
     [indent8 @ ''Answer:'', []]"
  have b: "map blank_line (split_nl ?T) = [] # (indent8 @ instruction_line1) # ?rest"
    by (rule blanked_lines_none)
  have r: "\<forall>l\<in>set ?rest. l = [] \<or> prefix indent8 l"
    using assms by auto
  have "dedent ?T = join [nl] ([] # instruction_line1 # map (remove_margin indent8) ?rest)"
    using b r by (rule dedent_indent8)
  also have "[] # instruction_line1 # map (remove_margin indent8) ?rest =
     [] # ([] @ instruction_line1) #
       ([instruction_line2, [], ''Context:'', [], [], ''Question: '' @ first_line q] @
        map (remove_margin indent8) (later_lines q)) @ [''Answer:'', []]"
    using remove_margin_indent8(1) [of "''Context:''"]
      remove_margin_indent8(1) [of "''Question: '' @ first_line q"]
      remove_margin_indent8(1) [of "''Answer:''"]
    by simp
  finally show ?thesis
    unfolding build_prompt_def
    by (simp only:)
      (rule strip_join_lines [OF _ instruction_line1_ends(1,2) answer_cue], simp)
qed

lemma prompt_one:
  assumes "\<forall>l\<in>set (later_lines d @ later_lines q). l = [] \<or> prefix indent8 l"
  shows "build_prompt q [d] =
     join [nl] (instruction_line1 #
       ([instruction_line2, [], ''Context:'', ''- '' @ first_line d] @
        map (remove_margin indent8) (later_lines d) @
        [ [], ''Question: '' @ first_line q] @
        map (remove_margin indent8) (later_lines q)) @
       [''Answer:''])"
proof -
  let ?T = "prompt_template (context_block [d]) q"
  let ?rest = "([indent8 @ instruction_line2, [], indent8 @ ''Context:'',
       indent8 @ ''- '' @ first_line d] @ later_lines d @
      concat (map (\<lambda>d'. [] # (''- '' @ first_line d') # later_lines d') []) @
      [ [], indent8 @ ''Question: '' @ first_line q] @ later_lines q) @
     [indent8 @ ''Answer:'', []]"
  have b: "map blank_line (split_nl ?T) = [] # (indent8 @ instruction_line1) # ?rest"
    by (rule blanked_lines_some)
  have r: "\<forall>l\<in>set ?rest. l = [] \<or> prefix indent8 l"
    using assms by auto
  have "dedent ?T = join [nl] ([] # instruction_line1 # map (remove_margin indent8) ?rest)"
    using b r by (rule dedent_indent8)
  also have "[] # instruction_line1 # map (remove_margin indent8) ?rest =
     [] # ([] @ instruction_line1) #
       ([instruction_line2, [], ''Context:'', ''- '' @ first_line d] @
        map (remove_margin indent8) (later_lines d) @
        [ [], ''Question: '' @ first_line q] @
        map (remove_margin indent8) (later_lines q)) @ [''Answer:'', []]"
    using remove_margin_indent8(1) [of "''Context:''"]
      remove_margin_indent8(1) [of "''Question: '' @ first_line q"]
      remove_margin_indent8(1) [of "''- '' @ first_line d"]
      remove_margin_indent8(1) [of "''Answer:''"]
    by simp
  finally show ?thesis
    unfolding build_prompt_def
    by (simp only:)
      (rule strip_join_lines [OF _ instruction_line1_ends(1,2) answer_cue], simp)
qed

subsection \<open>Texts of one line\<close>

lemma single_line_lines:
  "single_line s \<Longrightarrow> first_line s = s" "single_line s \<Longrightarrow> later_lines s = []"
  by (simp_all add: single_line_def first_line_def later_lines_def split_nl_single)

lemma first_line_no_nl: "nl \<notin> set (first_line s)"
  unfolding first_line_def by (rule split_nl_line [of _ s]) simp

lemma later_lines_no_nl: "l \<in> set (later_lines s) \<Longrightarrow> nl \<notin> set l"
proof -
  assume "l \<in> set (later_lines s)"
  then obtain l' where "l' \<in> set (tl (split_nl s))" "l = blank_line l'"
    by (auto simp: later_lines_def)
  then show ?thesis
    using split_nl_line [of l' s] by (auto dest: list.set_sel(2) [rotated] simp: blank_line_no_nl)
qed

lemma remove_margin_no_nl: "nl \<notin> set l \<Longrightarrow> nl \<notin> set (remove_margin m l)"
  by (auto simp: remove_margin_def dest: in_set_dropD)

lemma context_block_single:
  "\<forall>d\<in>set (d1 # ds). single_line d \<Longrightarrow>
   split_nl (context_block (d1 # ds)) =
     (''- '' @ d1) # concat (map (\<lambda>d. [ [], ''- '' @ d]) ds)"
proof -
  assume a: "\<forall>d\<in>set (d1 # ds). single_line d"
  then have "concat (map (\<lambda>d'. [] # (''- '' @ first_line d') # tl (split_nl d')) ds) =
      concat (map (\<lambda>d. [ [], ''- '' @ d]) ds)"
    by (induction ds) (simp_all add: single_line_def first_line_def split_nl_single)
  moreover from a have "first_line d1 = d1" "tl (split_nl d1) = []"
    by (simp_all add: single_line_def first_line_def split_nl_single)
  ultimately show ?thesis
    by (simp only: context_block_lines) simp
qed

lemma q_line: "nl \<notin> set (''Question: '' @ first_line q)" "nl \<notin> set (indent8 @ ''Question: '' @ first_line q)"
  by (simp_all add: first_line_no_nl template_no_nl)

lemma bullet_line: "nl \<notin> set (''- '' @ first_line d)" "nl \<notin> set (indent8 @ ''- '' @ first_line d)"
  by (simp_all add: first_line_no_nl template_no_nl)

lemma later_lines_all: "list_all (\<lambda>l. nl \<notin> set l) (later_lines s)"
  by (auto simp: list_all_iff dest: later_lines_no_nl)

lemma dedented_lines_all:
  "list_all (\<lambda>l. nl \<notin> set l) (map (remove_margin indent8) (later_lines s))"
  by (auto simp: list_all_iff remove_margin_no_nl dest: later_lines_no_nl)

lemma bullets_all:
  "list_all (\<lambda>l. nl \<notin> set l)
     (concat (map (\<lambda>d'. [] # (''- '' @ first_line d') # later_lines d') ds))"
  by (induction ds) (simp_all add: first_line_no_nl later_lines_all)

lemma split_nl_join_all:
  "ls \<noteq> [] \<Longrightarrow> list_all (\<lambda>l. nl \<notin> set l) ls \<Longrightarrow> split_nl (join [nl] ls) = ls"
  by (simp add: split_nl_join list_all_iff)

lemmas no_nl_simps = template_no_nl first_line_no_nl later_lines_all dedented_lines_all
  bullets_all

subsection \<open>The prompt as one text\<close>

lemma prompt_one_text:
  assumes "single_line q" and "single_line d"
  shows "build_prompt q [d] =
     instruction_line1 @ [nl] @ instruction_line2 @ [nl, nl] @
     ''Context:'' @ [nl] @ context_block [d] @ [nl, nl] @
     ''Question: '' @ q @ [nl] @ ''Answer:''"
proof -
  from assms have l: "first_line q = q" "later_lines q = []" "first_line d = d"
    "later_lines d = []"
    by (simp_all add: single_line_lines)
  have "\<forall>l\<in>set (later_lines d @ later_lines q). l = [] \<or> prefix indent8 l"
    by (simp add: l)
  then show ?thesis
    by (simp add: prompt_one l context_block_def)
qed

lemma prompt_none_text:
  assumes "single_line q"
  shows "build_prompt q [] =
     instruction_line1 @ [nl] @ instruction_line2 @ [nl, nl] @
     ''Context:'' @ [nl, nl, nl] @ ''Question: '' @ q @ [nl] @ ''Answer:''"
proof -
  from assms have l: "first_line q = q" "later_lines q = []"
    by (simp_all add: single_line_lines)
  have "\<forall>l\<in>set (later_lines q). l = [] \<or> prefix indent8 l"
    by (simp add: l)
  then show ?thesis
    by (simp add: prompt_none l)
qed

subsection \<open>The margin in general\<close>

lemma first_diff_take: "first_diff m x = Some i \<Longrightarrow> take i m = take i x"
  by (induction m x arbitrary: i rule: first_diff.induct) (auto split: if_splits)

lemma first_diff_None: "first_diff m x = None \<Longrightarrow> prefix m x \<or> prefix x m"
  by (induction m x rule: first_diff.induct) (auto split: if_splits)

lemma margin_step_common:
  "\<exists>m'. margin_step (Some m) x = Some m' \<and> prefix m' m \<and> prefix m' x"
proof (cases "prefix m x \<or> prefix x m")
  case True
  then show ?thesis by auto
next
  case False
  then obtain i where i: "first_diff m x = Some i"
    using first_diff_None [of m x] by (cases "first_diff m x") auto
  with False have "margin_step (Some m) x = Some (take i m)" by simp
  moreover have "prefix (take i m) m" by (rule take_is_prefix)
  moreover have "prefix (take i m) x"
    unfolding first_diff_take [OF i] by (rule take_is_prefix)
  ultimately show ?thesis by blast
qed

lemma foldl_margin_common:
  "\<exists>m'. foldl margin_step (Some m) xs = Some m' \<and> prefix m' m \<and> (\<forall>x\<in>set xs. prefix m' x)"
proof (induction xs arbitrary: m)
  case Nil
  then show ?case by simp
next
  case (Cons x xs)
  from margin_step_common [of m x] obtain m1
    where m1: "margin_step (Some m) x = Some m1" "prefix m1 m" "prefix m1 x" by blast
  from Cons.IH [of m1] obtain m'
    where m': "foldl margin_step (Some m1) xs = Some m'" "prefix m' m1"
      "\<forall>x\<in>set xs. prefix m' x" by blast
  from m1 m' have "foldl margin_step (Some m) (x # xs) = Some m'" by simp
  moreover from m1 m' have "prefix m' m" "prefix m' x"
    by (auto intro: prefix_order.trans)
  ultimately show ?case using m'(3) by auto
qed

lemma remove_margin_Nil [simp]: "remove_margin [] l = l"
  by (simp add: remove_margin_def)

lemma dedent_general:
  assumes "map blank_line (split_nl text) = [] # (indent8 @ instruction_line1) # rest"
  shows "\<exists>m'. prefix m' indent8 \<and>
           (\<forall>l\<in>set rest. dropWhile is_sptab l \<noteq> [] \<longrightarrow> prefix m' (takeWhile is_sptab l)) \<and>
           dedent text =
             join [nl] (map (remove_margin m') ([] # (indent8 @ instruction_line1) # rest))"
proof -
  let ?ind = "map (takeWhile is_sptab) (filter (\<lambda>l. dropWhile is_sptab l \<noteq> []) rest)"
  have ind: "leading_whitespace_findall (whitespace_only_sub text) = indent8 # ?ind"
    unfolding leading_whitespace_findall_def whitespace_only_sub_lines assms
    by (simp add: first_indent del: dropWhile_eq_Nil_conv)
  from foldl_margin_common [of indent8 ?ind] obtain m'
    where m': "foldl margin_step (Some indent8) ?ind = Some m'" "prefix m' indent8"
      "\<forall>x\<in>set ?ind. prefix m' x" by blast
  have text1: "whitespace_only_sub text =
      join [nl] ([] # (indent8 @ instruction_line1) # rest)"
    unfolding whitespace_only_sub_def assms ..
  have "dedent text =
      join [nl] (map (remove_margin m') ([] # (indent8 @ instruction_line1) # rest))"
  proof (cases "m' = []")
    case True
    with m'(1) ind show ?thesis
      by (simp add: dedent_def Let_def text1 map_idI)
  next
    case False
    with m'(1) ind show ?thesis
      by (simp add: dedent_def Let_def whitespace_only_sub_lines assms)
  qed
  moreover from m'(3)
  have "\<forall>l\<in>set rest. dropWhile is_sptab l \<noteq> [] \<longrightarrow> prefix m' (takeWhile is_sptab l)"
    by auto
  ultimately show ?thesis using m'(2) by blast
qed

lemma later_lines_nonblank:
  "l \<in> set (later_lines s) \<Longrightarrow> l \<noteq> [] \<Longrightarrow> dropWhile is_sptab l \<noteq> []"
proof -
  assume "l \<in> set (later_lines s)" and ne: "l \<noteq> []"
  then obtain l' where "l = blank_line l'" by (auto simp: later_lines_def)
  with ne have "\<not> whitespace_only l" by simp
  with ne show ?thesis by (simp add: whitespace_only_def)
qed

lemma prefix_takeWhile: "prefix p (takeWhile P l) \<Longrightarrow> prefix p l"
  by (metis prefix_order.trans takeWhile_is_prefix)

text \<open>
  A later line that is neither empty nor indented by eight spaces leaves spaces in front of
  the second instruction line.
\<close>

lemma prompt_partial_margin:
  assumes lines: "map blank_line (split_nl text) =
      [] # (indent8 @ instruction_line1) #
      ((indent8 @ instruction_line2) # mid) @ [indent8 @ ''Answer:'', []]"
    and bad: "l \<in> set mid" "dropWhile is_sptab l \<noteq> []" "\<not> prefix indent8 l"
  shows "prefix (instruction_line1 @ [nl, CHR '' '']) (strip (dedent text))"
proof -
  let ?rest = "((indent8 @ instruction_line2) # mid) @ [indent8 @ ''Answer:'', []]"
  from dedent_general [OF lines] obtain m'
    where m': "prefix m' indent8"
      "\<forall>l\<in>set ?rest. dropWhile is_sptab l \<noteq> [] \<longrightarrow> prefix m' (takeWhile is_sptab l)"
      "dedent text =
         join [nl] (map (remove_margin m') ([] # (indent8 @ instruction_line1) # ?rest))"
    by blast
  from m'(2) bad(1,2) have "prefix m' (takeWhile is_sptab l)" by simp
  then have "prefix m' l" by (rule prefix_takeWhile)
  with bad(3) have ne: "m' \<noteq> indent8" by auto
  from m'(1) obtain s where s1: "indent8 = m' @ s"
    unfolding prefix_def by blast
  with ne have s2: "s \<noteq> []" by (cases s) simp_all
  note s = s1 s2
  have rm: "\<And>x. remove_margin m' (indent8 @ x) = s @ x"
    by (simp add: remove_margin_def s)
  have rn: "remove_margin m' [] = []"
    by (simp add: remove_margin_def)
  have sp: "\<forall>c\<in>set s. isspace c"
    using indent8_space unfolding s(1) by simp
  have "\<forall>c\<in>set indent8. c = CHR '' ''" by (simp add: indent8_def)
  then have "\<forall>c\<in>set s. c = CHR '' ''" by (simp add: s1)
  with s2 obtain s' where s': "s = CHR '' '' # s'"
    by (cases s) auto
  let ?M = "map (remove_margin m') mid"
  have d: "dedent text =
      join [nl] ([] # (s @ instruction_line1) #
        ((s @ instruction_line2) # ?M) @ [s @ ''Answer:'', []])"
    unfolding m'(3) by (simp add: rm rn)
  have st: "strip (join [nl] ([] # (s @ instruction_line1) #
        ((s @ instruction_line2) # ?M) @ [s @ ''Answer:'', []])) =
      join [nl] (instruction_line1 # ((s @ instruction_line2) # ?M) @ [s @ ''Answer:''])"
    by (rule strip_join_lines [OF sp instruction_line1_ends(1,2)]) (simp_all add: isspace_def)
  have j1: "join [nl] (instruction_line1 # ((s @ instruction_line2) # ?M) @ [s @ ''Answer:'']) =
      instruction_line1 @ [nl] @ join [nl] (((s @ instruction_line2) # ?M) @ [s @ ''Answer:''])"
    by (rule join_Cons) simp
  have j2: "join [nl] (((s @ instruction_line2) # ?M) @ [s @ ''Answer:'']) =
      s @ join [nl] (instruction_line2 # ?M @ [s @ ''Answer:''])"
    using join_prefix [of "[nl]" s instruction_line2 "?M @ [s @ ''Answer:'']"] by simp
  have "strip (dedent text) = (instruction_line1 @ [nl, CHR '' '']) @ s' @
      join [nl] (instruction_line2 # ?M @ [s @ ''Answer:''])"
    unfolding d st j1 j2 by (simp add: s')
  then show ?thesis by (simp only: prefixI)
qed

lemma prompt_none_partial:
  assumes "l \<in> set (later_lines q)" and "l \<noteq> []" and "\<not> prefix indent8 l"
  shows "prefix (instruction_line1 @ [nl, CHR '' '']) (build_prompt q [])"
  unfolding build_prompt_def
proof (rule prompt_partial_margin)
  show "map blank_line (split_nl (prompt_template (context_block []) q)) =
      [] # (indent8 @ instruction_line1) #
      ((indent8 @ instruction_line2) #
       ([ [], indent8 @ ''Context:'', [], [], indent8 @ ''Question: '' @ first_line q] @
        later_lines q)) @ [indent8 @ ''Answer:'', []]"
    unfolding blanked_lines_none by simp
  show "l \<in> set ([ [], indent8 @ ''Context:'', [], [], indent8 @ ''Question: '' @ first_line q] @
        later_lines q)"
    using assms(1) by simp
  show "dropWhile is_sptab l \<noteq> []"
    using assms(1,2) by (rule later_lines_nonblank)
  show "\<not> prefix indent8 l" by (rule assms(3))
qed

lemma prompt_one_partial:
  assumes "l \<in> set (later_lines d @ later_lines q)" and "l \<noteq> []" and "\<not> prefix indent8 l"
  shows "prefix (instruction_line1 @ [nl, CHR '' '']) (build_prompt q [d])"
  unfolding build_prompt_def
proof (rule prompt_partial_margin)
  show "map blank_line (split_nl (prompt_template (context_block [d]) q)) =
      [] # (indent8 @ instruction_line1) #
      ((indent8 @ instruction_line2) #
       ([ [], indent8 @ ''Context:'', indent8 @ ''- '' @ first_line d] @ later_lines d @
        [ [], indent8 @ ''Question: '' @ first_line q] @ later_lines q)) @
      [indent8 @ ''Answer:'', []]"
    unfolding blanked_lines_some by simp
  show "l \<in> set ([ [], indent8 @ ''Context:'', indent8 @ ''- '' @ first_line d] @ later_lines d @
        [ [], indent8 @ ''Question: '' @ first_line q] @ later_lines q)"
    using assms(1) by auto
  show "dropWhile is_sptab l \<noteq> []"
    using assms(1,2) later_lines_nonblank [of l d] later_lines_nonblank [of l q] by auto
  show "\<not> prefix indent8 l" by (rule assms(3))
qed

lemma later_lines_plain:
  "\<forall>l\<in>set (tl (split_nl s)). \<not> whitespace_only l \<Longrightarrow> later_lines s = tl (split_nl s)"
  by (simp add: later_lines_def blank_line_def map_idI)

lemma lines_rejoin: "join [nl] ((p @ first_line s) # tl (split_nl s)) = p @ s"
proof -
  have "join [nl] ((p @ hd (split_nl s)) # tl (split_nl s)) =
      p @ join [nl] (hd (split_nl s) # tl (split_nl s))"
    by (rule join_prefix)
  then show ?thesis by (simp add: first_line_def join_split_nl)
qed

lemma bullets_plain:
  assumes "\<forall>d\<in>set ds. \<forall>l\<in>set (tl (split_nl d)). \<not> whitespace_only l"
  shows "concat (map (\<lambda>d'. [] # (''- '' @ first_line d') # later_lines d') ds) =
         concat (map (\<lambda>d'. [] # (''- '' @ first_line d') # tl (split_nl d')) ds)"
  using assms by (induction ds) (simp_all add: later_lines_plain)

lemma prompt_many_plain:
  assumes "\<forall>s\<in>set (q # d1 # d2 # ds). \<forall>l\<in>set (tl (split_nl s)). \<not> whitespace_only l"
  shows "build_prompt q (d1 # d2 # ds) =
     instruction_line1 @ [nl] @ indent8 @ instruction_line2 @ [nl, nl] @
     indent8 @ ''Context:'' @ [nl] @ indent8 @ context_block (d1 # d2 # ds) @ [nl, nl] @
     indent8 @ ''Question: '' @ q @ [nl] @ indent8 @ ''Answer:''"
proof -
  let ?ctx = "context_block (d1 # d2 # ds)"
  from assms have lq: "later_lines q = tl (split_nl q)"
    and l1: "later_lines d1 = tl (split_nl d1)"
    by (simp_all add: later_lines_plain)
  from assms have b: "concat (map (\<lambda>d'. [] # (''- '' @ first_line d') # later_lines d') (d2 # ds)) =
      concat (map (\<lambda>d'. [] # (''- '' @ first_line d') # tl (split_nl d')) (d2 # ds))"
    by (intro bullets_plain) simp
  have f: "first_line ?ctx = ''- '' @ first_line d1"
    unfolding first_line_def [of ?ctx] context_block_lines by simp
  have t: "tl (split_nl ?ctx) = tl (split_nl d1) @
      concat (map (\<lambda>d'. [] # (''- '' @ first_line d') # tl (split_nl d')) (d2 # ds))"
    unfolding context_block_lines by simp
  have "build_prompt q (d1 # d2 # ds) =
      join [nl] ([instruction_line1, indent8 @ instruction_line2, [], indent8 @ ''Context:''] @
        ((indent8 @ first_line ?ctx) # tl (split_nl ?ctx)) @ [ []] @
        (((indent8 @ ''Question: '') @ first_line q) # tl (split_nl q)) @
        [indent8 @ ''Answer:''])"
    unfolding prompt_many lq l1 b f t by simp
  also have "\<dots> =
      join [nl] [instruction_line1, indent8 @ instruction_line2, [], indent8 @ ''Context:''] @
      [nl] @ join [nl] ((indent8 @ first_line ?ctx) # tl (split_nl ?ctx)) @ [nl] @ [] @ [nl] @
      join [nl] (((indent8 @ ''Question: '') @ first_line q) # tl (split_nl q)) @ [nl] @
      indent8 @ ''Answer:''"
    by (simp only: join_append [where sep = "[nl]"] join.simps list.simps append_is_Nil_conv
        not_False_eq_True simp_thms append_assoc)
  finally show ?thesis
    by (simp only: lines_rejoin) simp
qed

text \<open>
  Whatever the later lines are, \<^verbatim>\<open>dedent\<close> removes a part of the eight spaces and leaves
  the rest \<open>s\<close> in front of every line of the template.
\<close>

lemma prompt_general_margin:
  assumes lines: "map blank_line (split_nl text) =
      [] # (indent8 @ instruction_line1) # mid @ [indent8 @ ''Answer:'', []]"
  shows "\<exists>m' s. indent8 = m' @ s \<and>
           strip (dedent text) =
             join [nl] (instruction_line1 # map (remove_margin m') mid @ [s @ ''Answer:''])"
proof -
  let ?rest = "mid @ [indent8 @ ''Answer:'', []]"
  from dedent_general [OF lines] obtain m'
    where m': "prefix m' indent8"
      "dedent text =
         join [nl] (map (remove_margin m') ([] # (indent8 @ instruction_line1) # ?rest))"
    by blast
  from m'(1) obtain s where s1: "indent8 = m' @ s"
    unfolding prefix_def by blast
  have rm: "\<And>x. remove_margin m' (indent8 @ x) = s @ x"
    by (simp add: remove_margin_def s1)
  have rn: "remove_margin m' [] = []"
    by (simp add: remove_margin_def)
  have sp: "\<forall>c\<in>set s. isspace c"
    using indent8_space unfolding s1 by simp
  let ?M = "map (remove_margin m') mid"
  have d: "dedent text =
      join [nl] ([] # (s @ instruction_line1) # ?M @ [s @ ''Answer:'', []])"
    unfolding m'(2) by (simp add: rm rn)
  have st: "strip (join [nl] ([] # (s @ instruction_line1) # ?M @ [s @ ''Answer:'', []])) =
      join [nl] (instruction_line1 # ?M @ [s @ ''Answer:''])"
    by (rule strip_join_lines [OF sp instruction_line1_ends(1,2)]) (simp_all add: isspace_def)
  from s1 st show ?thesis unfolding d by blast
qed

lemma prompt_none_general:
  "\<exists>m' s. indent8 = m' @ s \<and>
     build_prompt q [] =
       join [nl] ([instruction_line1, s @ instruction_line2, [], s @ ''Context:'', [], [],
                   s @ ''Question: '' @ first_line q] @
                  map (remove_margin m') (later_lines q) @ [s @ ''Answer:''])"
proof -
  let ?mid = "[indent8 @ instruction_line2, [], indent8 @ ''Context:'', [], [],
       indent8 @ ''Question: '' @ first_line q] @ later_lines q"
  have "map blank_line (split_nl (prompt_template (context_block []) q)) =
      [] # (indent8 @ instruction_line1) # ?mid @ [indent8 @ ''Answer:'', []]"
    unfolding blanked_lines_none by simp
  from prompt_general_margin [OF this] obtain m' s
    where s: "indent8 = m' @ s"
      and p: "build_prompt q [] =
        join [nl] (instruction_line1 # map (remove_margin m') ?mid @ [s @ ''Answer:''])"
    unfolding build_prompt_def by blast
  have rm: "\<And>x. remove_margin m' (indent8 @ x) = s @ x"
    by (simp add: remove_margin_def s)
  have rn: "remove_margin m' [] = []"
    by (simp add: remove_margin_def)
  have "map (remove_margin m') ?mid =
      [s @ instruction_line2, [], s @ ''Context:'', [], [], s @ ''Question: '' @ first_line q] @
      map (remove_margin m') (later_lines q)"
    using rm [of "''Context:''"] rm [of "''Question: '' @ first_line q"]
    by (simp add: rm rn)
  with s p show ?thesis by auto
qed

lemma join_tail:
  "xs \<noteq> [] \<Longrightarrow> join [nl] (xs @ ls) = join [nl] xs @ concat (map (\<lambda>l. nl # l) ls)"
proof (induction ls arbitrary: xs)
  case Nil
  then show ?case by simp
next
  case (Cons l ls)
  have "join [nl] ((xs @ [l]) @ ls) = join [nl] (xs @ [l]) @ concat (map (\<lambda>l. nl # l) ls)"
    by (rule Cons.IH) simp
  moreover have "join [nl] (xs @ [l]) = join [nl] xs @ [nl] @ l"
    using Cons.prems by (simp add: join_append)
  ultimately show ?case by simp
qed

lemma prompt_none_text_general:
  "\<exists>s tail. set s \<subseteq> {CHR '' ''} \<and>
     build_prompt q [] =
       instruction_line1 @ [nl] @ s @ instruction_line2 @ [nl, nl] @
       s @ ''Context:'' @ [nl, nl, nl] @ s @ ''Question: '' @ first_line q @ tail @
       [nl] @ s @ ''Answer:''"
proof -
  from prompt_none_general [of q] obtain m' s
    where s: "indent8 = m' @ s"
      and p: "build_prompt q [] =
       join [nl] ([instruction_line1, s @ instruction_line2, [], s @ ''Context:'', [], [],
                   s @ ''Question: '' @ first_line q] @
                  map (remove_margin m') (later_lines q) @ [s @ ''Answer:''])"
    by blast
  let ?L = "map (remove_margin m') (later_lines q)"
  have "set indent8 \<subseteq> {CHR '' ''}" by (simp add: indent8_def)
  then have sp: "set s \<subseteq> {CHR '' ''}" unfolding s by simp
  have "join [nl] ([instruction_line1, s @ instruction_line2, [], s @ ''Context:'', [], [],
                   s @ ''Question: '' @ first_line q] @ (?L @ [s @ ''Answer:''])) =
      join [nl] [instruction_line1, s @ instruction_line2, [], s @ ''Context:'', [], [],
                   s @ ''Question: '' @ first_line q] @
      concat (map (\<lambda>l. nl # l) (?L @ [s @ ''Answer:'']))"
    by (rule join_tail) simp
  then have "build_prompt q [] =
       instruction_line1 @ [nl] @ s @ instruction_line2 @ [nl, nl] @
       s @ ''Context:'' @ [nl, nl, nl] @ s @ ''Question: '' @ first_line q @
       concat (map (\<lambda>l. nl # l) ?L) @ [nl] @ s @ ''Answer:''"
    unfolding p by simp
  with sp show ?thesis by blast
qed

section \<open>Properties of the generation side\<close>

text \<open>
  Claim C1. For every question, every list of retrieved documents and every environment,
  \<^verbatim>\<open>call_llama_with_context\<close> returns a string and no exception leaves it: when the
  executable is missing the fixed message is returned, when \<^verbatim>\<open>subprocess.run\<close> raises the
  exception is caught and its text is returned behind \<^verbatim>\<open>Failed to invoke Ollama:\<close>, and
  when the process exits with a non-zero status the exit code and the trimmed standard error
  are returned.
\<close>

theorem call_llama_with_context_never_raises:
  "(\<exists>s. fst (call_llama_with_context q docs w) = Inr s) \<and>
   (which w ''ollama'' = None \<longrightarrow>
      fst (call_llama_with_context q docs w) = Inr ollama_missing_message) \<and>
   (\<forall>e. which w ''ollama'' \<noteq> None \<and>
        run_outcome w ollama_argv (build_prompt q docs) = Inl e \<longrightarrow>
      fst (call_llama_with_context q docs w) = Inr (''Failed to invoke Ollama: '' @ exc_str e)) \<and>
   (\<forall>proc. which w ''ollama'' \<noteq> None \<and>
        run_outcome w ollama_argv (build_prompt q docs) = Inr proc \<and> returncode proc \<noteq> 0 \<longrightarrow>
      fst (call_llama_with_context q docs w) =
        Inr (''Ollama returned non-zero exit code '' @ str_int (returncode proc) @ '': '' @
             strip (stderr proc)))"
proof (cases "which w ''ollama''")
  case None
  then show ?thesis by (simp add: call_missing)
next
  case (Some p)
  then show ?thesis by (simp add: call_present split: sum.splits)
qed

text \<open>The three failure cases at concrete environments.\<close>

theorem call_llama_with_context_never_raises_witness:
  "which world_missing ''ollama'' = None \<and>
   fst (call_llama_with_context ''q'' [''d''] world_missing) = Inr ollama_missing_message \<and>
   which world_launch_failure ''ollama'' \<noteq> None \<and>
   fst (call_llama_with_context ''q'' [''d''] world_launch_failure) =
     Inr ''Failed to invoke Ollama: Permission denied'' \<and>
   which (world_exit 2 [] ''boom'') ''ollama'' \<noteq> None \<and>
   fst (call_llama_with_context ''q'' [''d''] (world_exit 2 [] ''boom'')) =
     Inr ''Ollama returned non-zero exit code 2: boom''"
  using call_llama_with_context_never_raises [of "''q''" "[''d'']" world_missing]
    call_llama_with_context_never_raises [of "''q''" "[''d'']" world_launch_failure]
    call_llama_with_context_never_raises [of "''q''" "[''d'']" "world_exit 2 [] ''boom''"]
  by (simp add: world_missing_def world_launch_failure_def world_exit_def
      str_int_def str_nat.simps digit_char_def strip_def lstrip_def rstrip_def isspace_def)

text \<open>
  Claim C2. If \<^verbatim>\<open>shutil.which("ollama")\<close> finds nothing then, whatever the question and the
  documents, the function returns the fixed message, which names the missing program and
  the place to install it from, and the environment is left as it was: \<^verbatim>\<open>subprocess.run\<close>
  is not called, so no subordinate process is started.
\<close>

theorem missing_ollama_fixed_message:
  assumes "shutil_which w ''ollama'' = None"
  shows "call_llama_with_context q docs w = (Inr ollama_missing_message, w) \<and>
         run_calls (snd (call_llama_with_context q docs w)) = run_calls w \<and>
         sublist ''Ollama CLI not found'' ollama_missing_message \<and>
         sublist ''https://ollama.com'' ollama_missing_message"
  using assms by (simp add: shutil_which_def call_missing missing_message_names)

text \<open>An environment without the executable.\<close>

theorem missing_ollama_fixed_message_witness:
  "shutil_which world_missing ''ollama'' = None \<and>
   call_llama_with_context ''What color is the cat?'' [''a red cat'', ''a blue dog''] world_missing =
     (Inr ollama_missing_message, world_missing) \<and>
   run_calls (snd (call_llama_with_context ''What color is the cat?''
     [''a red cat'', ''a blue dog''] world_missing)) = []"
proof -
  have h: "shutil_which world_missing ''ollama'' = None"
    by (simp add: shutil_which_def world_missing_def)
  have r: "run_calls world_missing = []" by (simp add: world_missing_def)
  from missing_ollama_fixed_message [OF h, of "''What color is the cat?''"
      "[''a red cat'', ''a blue dog'']"] h r
  show ?thesis by simp
qed

text \<open>
  Claim C3. If the process runs and exits with a non-zero status, the returned string is
  \<^verbatim>\<open>Ollama returned non-zero exit code\<close>, the exit code, a colon and the trimmed standard
  error. The exit code is the decimal numeral of the status (with a minus sign for a negative
  one); the trimmed standard error is the standard error without the whitespace at its two
  ends: the standard error is that text between two runs of whitespace, and the text neither
  starts nor ends with whitespace. So the string contains both; for exit code 1 and standard
  error \<^verbatim>\<open>boom\<close> they are \<^verbatim>\<open>1\<close> and \<^verbatim>\<open>boom\<close>.
\<close>

theorem nonzero_exit_diagnostic:
  assumes "which w ''ollama'' = Some p"
    and "run_outcome w ollama_argv (build_prompt q docs) = Inr proc"
    and "returncode proc \<noteq> 0"
  shows "\<exists>code err.
           fst (call_llama_with_context q docs w) =
             Inr (''Ollama returned non-zero exit code '' @ code @ '': '' @ err) \<and>
           (0 < returncode proc \<longrightarrow>
              (\<forall>c\<in>set code. is_digit c) \<and> int (decimal_value code) = returncode proc) \<and>
           (returncode proc < 0 \<longrightarrow>
              (\<exists>ds. code = CHR ''-'' # ds \<and> (\<forall>c\<in>set ds. is_digit c) \<and>
                    int (decimal_value ds) = - returncode proc)) \<and>
           (\<exists>pre post. stderr proc = pre @ err @ post \<and>
              (\<forall>c\<in>set pre. isspace c) \<and> (\<forall>c\<in>set post. isspace c)) \<and>
           (err \<noteq> [] \<longrightarrow> \<not> isspace (hd err) \<and> \<not> isspace (last err)) \<and>
           sublist code (''Ollama returned non-zero exit code '' @ code @ '': '' @ err) \<and>
           sublist err (''Ollama returned non-zero exit code '' @ code @ '': '' @ err) \<and>
           (returncode proc = 1 \<and> stderr proc = ''boom'' \<longrightarrow>
              code = ''1'' \<and> err = ''boom'' \<and>
              sublist ''1'' (''Ollama returned non-zero exit code '' @ code @ '': '' @ err) \<and>
              sublist ''boom'' (''Ollama returned non-zero exit code '' @ code @ '': '' @ err))"
proof -
  let ?code = "str_int (returncode proc)"
  let ?err = "strip (stderr proc)"
  let ?s = "''Ollama returned non-zero exit code '' @ ?code @ '': '' @ ?err"
  have res: "fst (call_llama_with_context q docs w) = Inr ?s"
    using assms by (simp add: call_present)
  have pos: "0 < returncode proc \<longrightarrow>
      (\<forall>c\<in>set ?code. is_digit c) \<and> int (decimal_value ?code) = returncode proc"
    using str_int_decimal [of "returncode proc"] by simp
  have neg: "returncode proc < 0 \<longrightarrow>
      (\<exists>ds. ?code = CHR ''-'' # ds \<and> (\<forall>c\<in>set ds. is_digit c) \<and>
            int (decimal_value ds) = - returncode proc)"
    using str_int_decimal [of "returncode proc"] by simp
  let ?pre = "takeWhile isspace (stderr proc)"
  let ?post = "rev (takeWhile isspace (rev (lstrip (stderr proc))))"
  have "stderr proc = ?pre @ ?err @ ?post" by (rule strip_decomp)
  moreover have "\<forall>c\<in>set ?pre. isspace c" by (rule isspace_takeWhile)
  moreover have "\<forall>c\<in>set ?post. isspace c" using isspace_takeWhile by simp
  ultimately have dec: "\<exists>pre post. stderr proc = pre @ ?err @ post \<and>
      (\<forall>c\<in>set pre. isspace c) \<and> (\<forall>c\<in>set post. isspace c)" by blast
  have ends: "?err \<noteq> [] \<longrightarrow> \<not> isspace (hd ?err) \<and> \<not> isspace (last ?err)"
    using strip_hd strip_last by blast
  have sc: "sublist ?code ?s" by (rule sublist_appendI)
  have "sublist ?err ((''Ollama returned non-zero exit code '' @ ?code @ '': '') @ ?err @ [])"
    by (rule sublist_appendI)
  then have se: "sublist ?err ?s" by simp
  have one: "str_int 1 = ''1''"
    by (simp add: str_int_def str_nat.simps digit_char_def)
  have boom: "strip ''boom'' = ''boom''"
    by (simp add: strip_def lstrip_def rstrip_def isspace_def)
  have special: "returncode proc = 1 \<and> stderr proc = ''boom'' \<longrightarrow>
      ?code = ''1'' \<and> ?err = ''boom'' \<and> sublist ''1'' ?s \<and> sublist ''boom'' ?s"
    using sc se one boom by auto
  from res pos neg dec ends sc se special show ?thesis by blast
qed

text \<open>Exit code 1 with \<^verbatim>\<open>boom\<close> on standard error.\<close>

theorem nonzero_exit_diagnostic_witness:
  "which (world_exit 1 [] ''boom'') ''ollama'' = Some ''/usr/local/bin/ollama'' \<and>
   run_outcome (world_exit 1 [] ''boom'') ollama_argv (build_prompt ''q'' []) =
     Inr \<lparr>returncode = 1, stdout = [], stderr = ''boom''\<rparr> \<and>
   fst (call_llama_with_context ''q'' [] (world_exit 1 [] ''boom'')) =
     Inr ''Ollama returned non-zero exit code 1: boom'' \<and>
   sublist ''1'' ''Ollama returned non-zero exit code 1: boom'' \<and>
   sublist ''boom'' ''Ollama returned non-zero exit code 1: boom''"
proof -
  let ?proc = "\<lparr>returncode = 1, stdout = [], stderr = ''boom''\<rparr>"
  have a: "which (world_exit 1 [] ''boom'') ''ollama'' = Some ''/usr/local/bin/ollama''"
    by (simp add: world_exit_def)
  have b: "run_outcome (world_exit 1 [] ''boom'') ollama_argv (build_prompt ''q'' []) = Inr ?proc"
    by (simp add: world_exit_def)
  have c: "returncode ?proc \<noteq> 0" by simp
  from nonzero_exit_diagnostic [OF a b c] obtain code err
    where r: "fst (call_llama_with_context ''q'' [] (world_exit 1 [] ''boom'')) =
        Inr (''Ollama returned non-zero exit code '' @ code @ '': '' @ err)"
      and s: "returncode ?proc = 1 \<and> stderr ?proc = ''boom'' \<longrightarrow>
        code = ''1'' \<and> err = ''boom'' \<and>
        sublist ''1'' (''Ollama returned non-zero exit code '' @ code @ '': '' @ err) \<and>
        sublist ''boom'' (''Ollama returned non-zero exit code '' @ code @ '': '' @ err)"
    by blast
  have h: "returncode ?proc = 1 \<and> stderr ?proc = ''boom''" by simp
  from s h have s': "code = ''1'' \<and> err = ''boom'' \<and>
        sublist ''1'' (''Ollama returned non-zero exit code '' @ code @ '': '' @ err) \<and>
        sublist ''boom'' (''Ollama returned non-zero exit code '' @ code @ '': '' @ err)"
    by (rule mp)
  then have e: "code = ''1''" "err = ''boom''" by blast+
  have l: "''Ollama returned non-zero exit code '' @ ''1'' @ '': '' @ ''boom'' =
      ''Ollama returned non-zero exit code 1: boom''" by simp
  from r have r': "fst (call_llama_with_context ''q'' [] (world_exit 1 [] ''boom'')) =
     Inr ''Ollama returned non-zero exit code 1: boom''"
    unfolding e l .
  from s' have t: "sublist ''1'' ''Ollama returned non-zero exit code 1: boom''"
    "sublist ''boom'' ''Ollama returned non-zero exit code 1: boom''"
    unfolding e l by blast+
  from a b r' t show ?thesis by blast
qed

text \<open>
  Claim C4. If the process exits with status zero, the returned string is the standard output
  with its leading and trailing whitespace removed: the standard output is that string between
  two runs of whitespace, and the string neither starts nor ends with whitespace.
\<close>

theorem zero_exit_trimmed_stdout:
  assumes "which w ''ollama'' = Some p"
    and "run_outcome w ollama_argv (build_prompt q docs) = Inr proc"
    and "returncode proc = 0"
  shows "fst (call_llama_with_context q docs w) = Inr (strip (stdout proc)) \<and>
         (\<exists>pre post. stdout proc = pre @ strip (stdout proc) @ post \<and>
            (\<forall>c\<in>set pre. isspace c) \<and> (\<forall>c\<in>set post. isspace c)) \<and>
         (strip (stdout proc) \<noteq> [] \<longrightarrow>
            \<not> isspace (hd (strip (stdout proc))) \<and> \<not> isspace (last (strip (stdout proc))))"
proof -
  have res: "fst (call_llama_with_context q docs w) = Inr (strip (stdout proc))"
    using assms by (simp add: call_present)
  let ?pre = "takeWhile isspace (stdout proc)"
  let ?post = "rev (takeWhile isspace (rev (lstrip (stdout proc))))"
  have "stdout proc = ?pre @ strip (stdout proc) @ ?post" by (rule strip_decomp)
  moreover have "\<forall>c\<in>set ?pre. isspace c" by (rule isspace_takeWhile)
  moreover have "\<forall>c\<in>set ?post. isspace c" using isspace_takeWhile by simp
  ultimately have dec: "\<exists>pre post. stdout proc = pre @ strip (stdout proc) @ post \<and>
            (\<forall>c\<in>set pre. isspace c) \<and> (\<forall>c\<in>set post. isspace c)" by blast
  from res dec strip_hd strip_last show ?thesis by blast
qed

text \<open>A successful run whose output has a leading space and a final line feed.\<close>

theorem zero_exit_trimmed_stdout_witness:
  "which (world_exit 0 ('' The cat is red.'' @ [nl]) []) ''ollama'' = Some ''/usr/local/bin/ollama'' \<and>
   run_outcome (world_exit 0 ('' The cat is red.'' @ [nl]) []) ollama_argv
       (build_prompt ''What color is the cat?'' [''a red cat'']) =
     Inr \<lparr>returncode = 0, stdout = '' The cat is red.'' @ [nl], stderr = []\<rparr> \<and>
   fst (call_llama_with_context ''What color is the cat?'' [''a red cat'']
          (world_exit 0 ('' The cat is red.'' @ [nl]) [])) = Inr ''The cat is red.''"
proof -
  let ?w = "world_exit 0 ('' The cat is red.'' @ [nl]) []"
  let ?proc = "\<lparr>returncode = 0, stdout = '' The cat is red.'' @ [nl], stderr = []\<rparr>"
  have a: "which ?w ''ollama'' = Some ''/usr/local/bin/ollama''"
    by (simp add: world_exit_def)
  have b: "run_outcome ?w ollama_argv (build_prompt ''What color is the cat?'' [''a red cat'']) =
     Inr ?proc"
    by (simp add: world_exit_def)
  have c: "returncode ?proc = 0" by simp
  have s: "strip ('' The cat is red.'' @ [nl]) = ''The cat is red.''"
    by (simp add: strip_def lstrip_def rstrip_def isspace_def)
  from zero_exit_trimmed_stdout [OF a b c] a b s show ?thesis by simp
qed

section \<open>Properties of the indexing side\<close>

text \<open>
  Claim C5. For every non-empty list of \<open>n\<close> documents, once the client and the collection are
  obtained, \<^verbatim>\<open>add_sentences_to_chromadb\<close> issues exactly one \<^verbatim>\<open>collection.add\<close>, with
  all the documents and with the identifiers \<^verbatim>\<open>sentence-0\<close> to \<^verbatim>\<open>sentence-(n-1)\<close> in input
  order: as many identifiers as documents, pairwise distinct.
\<close>

theorem sentence_identifiers_batch:
  assumes "sentences \<noteq> []"
    and "store_raises st (store_calls st) NewClient = None"
    and "store_raises st (store_calls st @ [NewClient]) (GetOrCreateCollection name) = None"
  shows "\<exists>ids. store_calls (snd (add_sentences_to_chromadb sentences name st)) =
                 store_calls st @
                 [NewClient, GetOrCreateCollection name, CollectionAdd name sentences ids] \<and>
               length ids = length sentences \<and>
               (\<forall>i<length sentences. ids ! i = ''sentence-'' @ str_int (int i)) \<and>
               distinct ids"
proof -
  have "store_calls (snd (add_sentences_to_chromadb sentences name st)) =
          store_calls st @
          [NewClient, GetOrCreateCollection name,
           CollectionAdd name sentences (sentence_ids sentences)]"
    using assms(2,3) by (simp add: add_sentences_trace)
  moreover have "\<forall>i<length sentences. sentence_ids sentences ! i = ''sentence-'' @ str_int (int i)"
    by (simp add: sentence_ids_nth str_int_of_nat)
  ultimately show ?thesis
    using sentence_ids_length sentence_ids_distinct by blast
qed

text \<open>Three documents and a store that accepts every call.\<close>

theorem sentence_identifiers_batch_witness:
  "[''a red cat'', ''a blue dog'', ''a green bird''] \<noteq> [] \<and>
   store_raises accepting_store (store_calls accepting_store) NewClient = None \<and>
   store_raises accepting_store (store_calls accepting_store @ [NewClient])
     (GetOrCreateCollection default_collection_name) = None \<and>
   (\<exists>ids. store_calls (snd (add_sentences_to_chromadb
               [''a red cat'', ''a blue dog'', ''a green bird''] default_collection_name
               accepting_store)) =
            [NewClient, GetOrCreateCollection default_collection_name,
             CollectionAdd default_collection_name
               [''a red cat'', ''a blue dog'', ''a green bird''] ids] \<and>
          length ids = 3 \<and> ids ! 0 = ''sentence-0'' \<and> ids ! 1 = ''sentence-1'' \<and>
          ids ! 2 = ''sentence-2'' \<and> distinct ids)"
proof -
  let ?docs = "[''a red cat'', ''a blue dog'', ''a green bird'']"
  have a: "?docs \<noteq> []" by simp
  have b: "store_raises accepting_store (store_calls accepting_store) NewClient = None"
    by (simp add: accepting_store_def)
  have c: "store_raises accepting_store (store_calls accepting_store @ [NewClient])
     (GetOrCreateCollection default_collection_name) = None"
    by (simp add: accepting_store_def)
  have e: "store_calls accepting_store = []" by (simp add: accepting_store_def)
  from sentence_identifiers_batch [OF a b c]
  obtain ids where ids: "store_calls (snd (add_sentences_to_chromadb ?docs
       default_collection_name accepting_store)) =
       store_calls accepting_store @ [NewClient, GetOrCreateCollection default_collection_name,
             CollectionAdd default_collection_name ?docs ids]"
    "length ids = length ?docs"
    "\<forall>i<length ?docs. ids ! i = ''sentence-'' @ str_int (int i)"
    "distinct ids" by blast
  from ids(3) have "ids ! 0 = ''sentence-'' @ str_int (int 0)"
    "ids ! 1 = ''sentence-'' @ str_int (int 1)" "ids ! 2 = ''sentence-'' @ str_int (int 2)"
    by simp_all
  then have "ids ! 0 = ''sentence-0''" "ids ! 1 = ''sentence-1''" "ids ! 2 = ''sentence-2''"
    by (simp_all add: str_int_def str_nat.simps digit_char_def)
  with ids(1,2,4) a b c e show ?thesis by simp
qed

text \<open>
  Claim C8 says that the call with no documents succeeds and does not fault. The function
  passes the two empty lists to the store, and a store that refuses an insertion without
  identifiers makes the call raise.
\<close>

theorem empty_batch_refused_counterexample:
  "fst (add_sentences_to_chromadb [] default_collection_name nonempty_ids_store) =
     Inl (PyException ''ValueError'' ''Expected IDs to be a non-empty list'')"
  by (simp add: add_sentences_to_chromadb_def store_invoke_def Let_def nonempty_ids_store_def
      sentence_ids_def)

text \<open>
  Claim C8, amended. With no documents, once the client and the collection are obtained, the
  function issues exactly one \<^verbatim>\<open>collection.add\<close> with an empty document list and an empty
  identifier list; it returns the collection if the store accepts that call, and the store's
  exception leaves the function if the store refuses it.
\<close>

theorem empty_batch_delegated:
  assumes "store_raises st (store_calls st) NewClient = None"
    and "store_raises st (store_calls st @ [NewClient]) (GetOrCreateCollection name) = None"
  shows "store_calls (snd (add_sentences_to_chromadb [] name st)) =
           store_calls st @ [NewClient, GetOrCreateCollection name, CollectionAdd name [] []] \<and>
         fst (add_sentences_to_chromadb [] name st) =
           (case store_raises st (store_calls st @ [NewClient, GetOrCreateCollection name])
                   (CollectionAdd name [] []) of
              Some e \<Rightarrow> Inl e
            | None \<Rightarrow> Inr (Collection name))"
proof -
  have "sentence_ids [] = []" by (simp add: sentence_ids_def)
  with add_sentences_trace [OF assms, of "[]"] show ?thesis by simp
qed

text \<open>With a store that accepts every call the empty batch returns the collection.\<close>

theorem empty_batch_delegated_witness:
  "store_raises accepting_store (store_calls accepting_store) NewClient = None \<and>
   store_raises accepting_store (store_calls accepting_store @ [NewClient])
     (GetOrCreateCollection default_collection_name) = None \<and>
   store_calls (snd (add_sentences_to_chromadb [] default_collection_name accepting_store)) =
     [NewClient, GetOrCreateCollection default_collection_name,
      CollectionAdd default_collection_name [] []] \<and>
   fst (add_sentences_to_chromadb [] default_collection_name accepting_store) =
     Inr (Collection default_collection_name)"
proof -
  have b: "store_raises accepting_store (store_calls accepting_store) NewClient = None"
    by (simp add: accepting_store_def)
  have c: "store_raises accepting_store (store_calls accepting_store @ [NewClient])
     (GetOrCreateCollection default_collection_name) = None"
    by (simp add: accepting_store_def)
  from empty_batch_delegated [OF b c] b c show ?thesis
    by (simp add: accepting_store_def)
qed

text \<open>
  Claim C9. When the creation of the collection raises, or when the insertion raises, the very
  exception of the store leaves \<^verbatim>\<open>add_sentences_to_chromadb\<close>: it is not turned into a
  returned value, the failing call has been made once and nothing is called after it.
\<close>

theorem store_fault_propagates:
  "(store_raises st (store_calls st) NewClient = None \<and>
    store_raises st (store_calls st @ [NewClient]) (GetOrCreateCollection name) = Some e \<longrightarrow>
      add_sentences_to_chromadb sentences name st =
        (Inl e, st\<lparr>store_calls := store_calls st @ [NewClient, GetOrCreateCollection name]\<rparr>)) \<and>
   (store_raises st (store_calls st) NewClient = None \<and>
    store_raises st (store_calls st @ [NewClient]) (GetOrCreateCollection name) = None \<and>
    store_raises st (store_calls st @ [NewClient, GetOrCreateCollection name])
      (CollectionAdd name sentences (sentence_ids sentences)) = Some e \<longrightarrow>
      add_sentences_to_chromadb sentences name st =
        (Inl e, st\<lparr>store_calls := store_calls st @
           [NewClient, GetOrCreateCollection name,
            CollectionAdd name sentences (sentence_ids sentences)]\<rparr>))"
  by (simp add: add_sentences_to_chromadb_def store_invoke_def Let_def)

text \<open>A store whose collection creation fails and a store whose insertion fails.\<close>

theorem store_fault_propagates_witness:
  "store_raises failing_create_store (store_calls failing_create_store @ [NewClient])
     (GetOrCreateCollection default_collection_name) =
     Some (PyException ''RuntimeError'' ''no collection'') \<and>
   add_sentences_to_chromadb [''a red cat''] default_collection_name failing_create_store =
     (Inl (PyException ''RuntimeError'' ''no collection''),
      failing_create_store\<lparr>store_calls :=
        [NewClient, GetOrCreateCollection default_collection_name]\<rparr>) \<and>
   store_raises failing_add_store
     (store_calls failing_add_store @ [NewClient, GetOrCreateCollection default_collection_name])
     (CollectionAdd default_collection_name [''a red cat''] (sentence_ids [''a red cat''])) =
     Some (PyException ''RuntimeError'' ''insertion failed'') \<and>
   add_sentences_to_chromadb [''a red cat''] default_collection_name failing_add_store =
     (Inl (PyException ''RuntimeError'' ''insertion failed''),
      failing_add_store\<lparr>store_calls :=
        [NewClient, GetOrCreateCollection default_collection_name,
         CollectionAdd default_collection_name [''a red cat''] (sentence_ids [''a red cat''])]\<rparr>)"
  using store_fault_propagates [of failing_create_store default_collection_name
      "PyException ''RuntimeError'' ''no collection''" "[''a red cat'']"]
    store_fault_propagates [of failing_add_store default_collection_name
      "PyException ''RuntimeError'' ''insertion failed''" "[''a red cat'']"]
  by (simp add: failing_create_store_def failing_add_store_def)

section \<open>The prompt as a function of the question and the documents\<close>

text \<open>
  What \<^verbatim>\<open>build_prompt\<close> returns, as one text. With two documents or more, when no line after
  the first of the question or of a document holds only spaces and tabs, the lines of the
  template after the first have their eight spaces; with at most one document, when the question
  and the document hold no line feed, every line is flush left.
\<close>

lemma prompt_text_cases:
  "(2 \<le> length docs \<and>
    (\<forall>s\<in>set (q # docs). \<forall>l\<in>set (tl (split_nl s)). \<not> whitespace_only l) \<longrightarrow>
      build_prompt q docs =
        instruction_line1 @ [nl] @ indent8 @ instruction_line2 @ [nl, nl] @
        indent8 @ ''Context:'' @ [nl] @ indent8 @ context_block docs @ [nl, nl] @
        indent8 @ ''Question: '' @ q @ [nl] @ indent8 @ ''Answer:'') \<and>
   (length docs \<le> 1 \<and> (\<forall>s\<in>set (q # docs). single_line s) \<longrightarrow>
      build_prompt q docs =
        instruction_line1 @ [nl] @ instruction_line2 @ [nl, nl] @
        ''Context:'' @ [nl] @ context_block docs @ [nl, nl] @
        ''Question: '' @ q @ [nl] @ ''Answer:'') \<and>
   context_block docs = join [nl, nl] (map (\<lambda>d. ''- '' @ d) docs) \<and>
   ((\<forall>d\<in>set docs. single_line d) \<longrightarrow>
      split_nl (context_block docs) =
        (case docs of
           [] \<Rightarrow> [ []]
         | d # ds \<Rightarrow> (''- '' @ d) # concat (map (\<lambda>d'. [ [], ''- '' @ d']) ds)))"
proof (intro conjI impI)
  assume a: "2 \<le> length docs \<and>
    (\<forall>s\<in>set (q # docs). \<forall>l\<in>set (tl (split_nl s)). \<not> whitespace_only l)"
  then obtain d1 d2 ds where docs: "docs = d1 # d2 # ds"
    by (cases docs; cases "tl docs") auto
  from a show "build_prompt q docs =
        instruction_line1 @ [nl] @ indent8 @ instruction_line2 @ [nl, nl] @
        indent8 @ ''Context:'' @ [nl] @ indent8 @ context_block docs @ [nl, nl] @
        indent8 @ ''Question: '' @ q @ [nl] @ indent8 @ ''Answer:''"
    unfolding docs by (intro prompt_many_plain) simp
next
  assume a: "length docs \<le> 1 \<and> (\<forall>s\<in>set (q # docs). single_line s)"
  show "build_prompt q docs =
        instruction_line1 @ [nl] @ instruction_line2 @ [nl, nl] @
        ''Context:'' @ [nl] @ context_block docs @ [nl, nl] @
        ''Question: '' @ q @ [nl] @ ''Answer:''"
  proof (cases docs)
    case Nil
    with a show ?thesis by (simp add: prompt_none_text context_block_Nil)
  next
    case (Cons d ds)
    with a have "ds = []" by simp
    with a Cons show ?thesis by (simp add: prompt_one_text)
  qed
next
  show "context_block docs = join [nl, nl] (map (\<lambda>d. ''- '' @ d) docs)"
    by (rule context_block_def)
next
  assume a: "\<forall>d\<in>set docs. single_line d"
  show "split_nl (context_block docs) =
        (case docs of
           [] \<Rightarrow> [ []]
         | d # ds \<Rightarrow> (''- '' @ d) # concat (map (\<lambda>d'. [ [], ''- '' @ d']) ds))"
  proof (cases docs)
    case Nil
    then show ?thesis by (simp add: context_block_Nil)
  next
    case (Cons d ds)
    with a context_block_single [of d ds] show ?thesis by simp
  qed
qed

text \<open>
  With no document: the lines of the template after the first all carry one run \<open>s\<close> of spaces,
  three line feeds stand between \<^verbatim>\<open>Context:\<close> and the line of \<^verbatim>\<open>Question:\<close>, and the
  markers are there, whatever the question is.
\<close>

lemma prompt_text_no_documents:
  "(\<exists>s tail. set s \<subseteq> {CHR '' ''} \<and>
      build_prompt q [] =
        instruction_line1 @ [nl] @ s @ instruction_line2 @ [nl, nl] @
        s @ ''Context:'' @ [nl, nl, nl] @ s @ ''Question: '' @ first_line q @ tail @
        [nl] @ s @ ''Answer:'') \<and>
   sublist instruction_line1 (build_prompt q []) \<and>
   sublist instruction_line2 (build_prompt q []) \<and>
   sublist ''Context:'' (build_prompt q []) \<and>
   sublist ''Question:'' (build_prompt q []) \<and>
   sublist ''Answer:'' (build_prompt q []) \<and>
   (single_line q \<longrightarrow>
      build_prompt q [] =
        instruction_line1 @ [nl] @ instruction_line2 @ [nl, nl] @
        ''Context:'' @ [nl, nl, nl] @ ''Question: '' @ q @ [nl] @ ''Answer:'' \<and>
      sublist q (build_prompt q []))"
proof -
  let ?p = "build_prompt q []"
  from prompt_none_text_general [of q] obtain s tail
    where sp: "set s \<subseteq> {CHR '' ''}"
      and eq: "?p = instruction_line1 @ [nl] @ s @ instruction_line2 @ [nl, nl] @
        s @ ''Context:'' @ [nl, nl, nl] @ s @ ''Question: '' @ first_line q @ tail @
        [nl] @ s @ ''Answer:''"
    by blast
  have "sublist instruction_line1 ([] @ instruction_line1 @ ([nl] @ s @ instruction_line2 @
        [nl, nl] @ s @ ''Context:'' @ [nl, nl, nl] @ s @ ''Question: '' @ first_line q @ tail @
        [nl] @ s @ ''Answer:''))"
    by (rule sublist_appendI)
  then have 1: "sublist instruction_line1 ?p" by (simp add: eq)
  have "sublist instruction_line2 ((instruction_line1 @ [nl] @ s) @ instruction_line2 @
        ([nl, nl] @ s @ ''Context:'' @ [nl, nl, nl] @ s @ ''Question: '' @ first_line q @ tail @
        [nl] @ s @ ''Answer:''))"
    by (rule sublist_appendI)
  then have 2: "sublist instruction_line2 ?p" by (simp add: eq)
  have "sublist ''Context:'' ((instruction_line1 @ [nl] @ s @ instruction_line2 @ [nl, nl] @ s) @
        ''Context:'' @ ([nl, nl, nl] @ s @ ''Question: '' @ first_line q @ tail @
        [nl] @ s @ ''Answer:''))"
    by (rule sublist_appendI)
  then have 3: "sublist ''Context:'' ?p" by (simp add: eq)
  have "sublist ''Question:'' ((instruction_line1 @ [nl] @ s @ instruction_line2 @ [nl, nl] @
        s @ ''Context:'' @ [nl, nl, nl] @ s) @ ''Question:'' @ ('' '' @ first_line q @ tail @
        [nl] @ s @ ''Answer:''))"
    by (rule sublist_appendI)
  then have 4: "sublist ''Question:'' ?p" by (simp add: eq)
  have "sublist ''Answer:'' ((instruction_line1 @ [nl] @ s @ instruction_line2 @ [nl, nl] @
        s @ ''Context:'' @ [nl, nl, nl] @ s @ ''Question: '' @ first_line q @ tail @
        [nl] @ s) @ ''Answer:'' @ [])"
    by (rule sublist_appendI)
  then have 5: "sublist ''Answer:'' ?p" by (simp add: eq)
  have 6: "single_line q \<longrightarrow>
      ?p = instruction_line1 @ [nl] @ instruction_line2 @ [nl, nl] @
        ''Context:'' @ [nl, nl, nl] @ ''Question: '' @ q @ [nl] @ ''Answer:'' \<and>
      sublist q ?p"
  proof
    assume "single_line q"
    then have e: "?p = instruction_line1 @ [nl] @ instruction_line2 @ [nl, nl] @
        ''Context:'' @ [nl, nl, nl] @ ''Question: '' @ q @ [nl] @ ''Answer:''"
      by (rule prompt_none_text)
    have "sublist q ((instruction_line1 @ [nl] @ instruction_line2 @ [nl, nl] @
           ''Context:'' @ [nl, nl, nl] @ ''Question: '') @ q @ ([nl] @ ''Answer:''))"
      by (rule sublist_appendI)
    then have "sublist q ?p" by (simp add: e)
    with e show "?p = instruction_line1 @ [nl] @ instruction_line2 @ [nl, nl] @
        ''Context:'' @ [nl, nl, nl] @ ''Question: '' @ q @ [nl] @ ''Answer:'' \<and>
      sublist q ?p" by blast
  qed
  from sp eq 1 2 3 4 5 6 show ?thesis by blast
qed

text \<open>
  The lines of the prompt. With two documents or more the bullet of the second document starts
  at column zero, so \<^verbatim>\<open>dedent\<close> finds no margin and the lines of the template keep their
  eight spaces, for every question and all documents. With at most one document the eight spaces
  are removed exactly when every line after the first of the question and of the document is
  empty, holds only spaces and tabs, or starts with eight spaces.
\<close>

lemma prompt_lines_cases:
  "split_nl (build_prompt q (d1 # d2 # ds)) =
     [instruction_line1, indent8 @ instruction_line2, [], indent8 @ ''Context:'',
      indent8 @ ''- '' @ first_line d1] @ later_lines d1 @
     concat (map (\<lambda>d. [] # (''- '' @ first_line d) # later_lines d) (d2 # ds)) @
     [ [], indent8 @ ''Question: '' @ first_line q] @ later_lines q @
     [indent8 @ ''Answer:''] \<and>
   ((\<forall>l\<in>set (later_lines q). l = [] \<or> prefix indent8 l) \<longrightarrow>
      split_nl (build_prompt q []) =
        [instruction_line1, instruction_line2, [], ''Context:'', [], [],
         ''Question: '' @ first_line q] @
        map (remove_margin indent8) (later_lines q) @ [''Answer:'']) \<and>
   ((\<forall>l\<in>set (later_lines d @ later_lines q). l = [] \<or> prefix indent8 l) \<longrightarrow>
      split_nl (build_prompt q [d]) =
        [instruction_line1, instruction_line2, [], ''Context:'', ''- '' @ first_line d] @
        map (remove_margin indent8) (later_lines d) @
        [ [], ''Question: '' @ first_line q] @
        map (remove_margin indent8) (later_lines q) @ [''Answer:'']) \<and>
   ((\<exists>l\<in>set (later_lines q). l \<noteq> [] \<and> \<not> prefix indent8 l) \<longrightarrow>
      prefix (instruction_line1 @ [nl, CHR '' '']) (build_prompt q [])) \<and>
   ((\<exists>l\<in>set (later_lines d @ later_lines q). l \<noteq> [] \<and> \<not> prefix indent8 l) \<longrightarrow>
      prefix (instruction_line1 @ [nl, CHR '' '']) (build_prompt q [d]))"
proof (intro conjI impI)
  let ?many = "instruction_line1 #
       ([indent8 @ instruction_line2, [], indent8 @ ''Context:'',
         indent8 @ ''- '' @ first_line d1] @ later_lines d1 @
        concat (map (\<lambda>d'. [] # (''- '' @ first_line d') # later_lines d') (d2 # ds)) @
        [ [], indent8 @ ''Question: '' @ first_line q] @ later_lines q) @
       [indent8 @ ''Answer:'']"
  have "list_all (\<lambda>l. nl \<notin> set l) ?many"
    using bullets_all [of ds] by (simp add: no_nl_simps)
  then have "split_nl (join [nl] ?many) = ?many"
    by (intro split_nl_join_all) simp_all
  then show "split_nl (build_prompt q (d1 # d2 # ds)) =
     [instruction_line1, indent8 @ instruction_line2, [], indent8 @ ''Context:'',
      indent8 @ ''- '' @ first_line d1] @ later_lines d1 @
     concat (map (\<lambda>d. [] # (''- '' @ first_line d) # later_lines d) (d2 # ds)) @
     [ [], indent8 @ ''Question: '' @ first_line q] @ later_lines q @
     [indent8 @ ''Answer:'']"
    unfolding prompt_many by simp
next
  assume h: "\<forall>l\<in>set (later_lines q). l = [] \<or> prefix indent8 l"
  let ?none = "instruction_line1 #
       ([instruction_line2, [], ''Context:'', [], [], ''Question: '' @ first_line q] @
        map (remove_margin indent8) (later_lines q)) @
       [''Answer:'']"
  have "list_all (\<lambda>l. nl \<notin> set l) ?none"
    by (simp add: no_nl_simps)
  then have "split_nl (join [nl] ?none) = ?none"
    by (intro split_nl_join_all) simp_all
  then show "split_nl (build_prompt q []) =
        [instruction_line1, instruction_line2, [], ''Context:'', [], [],
         ''Question: '' @ first_line q] @
        map (remove_margin indent8) (later_lines q) @ [''Answer:'']"
    unfolding prompt_none [OF h] by simp
next
  assume h: "\<forall>l\<in>set (later_lines d @ later_lines q). l = [] \<or> prefix indent8 l"
  let ?one = "instruction_line1 #
       ([instruction_line2, [], ''Context:'', ''- '' @ first_line d] @
        map (remove_margin indent8) (later_lines d) @
        [ [], ''Question: '' @ first_line q] @
        map (remove_margin indent8) (later_lines q)) @
       [''Answer:'']"
  have "list_all (\<lambda>l. nl \<notin> set l) ?one"
    by (simp add: no_nl_simps)
  then have "split_nl (join [nl] ?one) = ?one"
    by (intro split_nl_join_all) simp_all
  then show "split_nl (build_prompt q [d]) =
        [instruction_line1, instruction_line2, [], ''Context:'', ''- '' @ first_line d] @
        map (remove_margin indent8) (later_lines d) @
        [ [], ''Question: '' @ first_line q] @
        map (remove_margin indent8) (later_lines q) @ [''Answer:'']"
    unfolding prompt_one [OF h] by simp
next
  assume "\<exists>l\<in>set (later_lines q). l \<noteq> [] \<and> \<not> prefix indent8 l"
  then show "prefix (instruction_line1 @ [nl, CHR '' '']) (build_prompt q [])"
    by (blast intro: prompt_none_partial)
next
  assume "\<exists>l\<in>set (later_lines d @ later_lines q). l \<noteq> [] \<and> \<not> prefix indent8 l"
  then show "prefix (instruction_line1 @ [nl, CHR '' '']) (build_prompt q [d])"
    by (blast intro: prompt_one_partial)
qed

section \<open>Properties of the prompt\<close>

text \<open>
  Claim C6. For every question and every ordered document list the prompt is to be the
  concatenation of a fixed instruction header, the context block with one bullet line per
  document in input order, the literal question verbatim after the context section, and the
  \<^verbatim>\<open>Answer:\<close> cue. Line 61 applies \<^verbatim>\<open>textwrap.dedent\<close> to the text in which the question and
  the documents are already inserted. For the question of the three lines \<^verbatim>\<open>x\<close>, one
  space, \<^verbatim>\<open>y\<close> and the documents \<^verbatim>\<open>a red cat\<close> and \<^verbatim>\<open>a blue dog\<close>, the prompt is the
  text below: the header keeps eight spaces on its second line, the second bullet starts at
  column zero, and the middle line of the question is emptied, so the literal question is not
  in the prompt.
\<close>

theorem prompt_structure_failing_input:
  "build_prompt [CHR ''x'', nl, CHR '' '', nl, CHR ''y''] [''a red cat'', ''a blue dog''] =
     instruction_line1 @ [nl] @ ''        '' @ instruction_line2 @ [nl, nl] @
     ''        Context:'' @ [nl] @ ''        - a red cat'' @ [nl, nl] @ ''- a blue dog'' @
     [nl, nl] @ ''        Question: x'' @ [nl, nl] @ ''y'' @ [nl] @ ''        Answer:'' \<and>
   \<not> sublist [CHR ''x'', nl, CHR '' '', nl, CHR ''y'']
       (build_prompt [CHR ''x'', nl, CHR '' '', nl, CHR ''y''] [''a red cat'', ''a blue dog''])"
  by code_simp

text \<open>
  Claim C7. For every question the prompt built with an empty document list is to hold the
  literal question, no bullet line in its context section, and the structural markers. For the
  question whose first line is \<^verbatim>\<open>a\<close> and whose second line is \<^verbatim>\<open>b\<close> behind ten spaces,
  \<^verbatim>\<open>textwrap.dedent\<close>, applied after the question is inserted, takes eight of the ten spaces
  away: the prompt is the text below, and the literal question is not in it.
\<close>

theorem prompt_no_documents_failing_input:
  "build_prompt (CHR ''a'' # nl # ''          b'') [] =
     instruction_line1 @ [nl] @ instruction_line2 @ [nl, nl] @
     ''Context:'' @ [nl, nl, nl] @ ''Question: a'' @ [nl] @ ''  b'' @ [nl] @ ''Answer:'' \<and>
   \<not> sublist (CHR ''a'' # nl # ''          b'')
       (build_prompt (CHR ''a'' # nl # ''          b'') [])"
  by code_simp

text \<open>
  Claim C10. With two documents or more the lines of the template are to keep their eight
  spaces, and with zero or one documents the eight spaces are to be removed from every line.
  With no document and the question of the two lines \<^verbatim>\<open>a\<close> and \<^verbatim>\<open>b\<close>, the second line of
  the question starts at column zero, \<^verbatim>\<open>textwrap.dedent\<close> finds no margin, and the prompt is
  the text below: every line of the template after the first keeps its eight spaces.
\<close>

theorem dedent_indentation_failing_input:
  "build_prompt [CHR ''a'', nl, CHR ''b''] [] =
     instruction_line1 @ [nl] @ ''        '' @ instruction_line2 @ [nl, nl] @
     ''        Context:'' @ [nl, nl, nl] @ ''        Question: a'' @ [nl] @ ''b'' @ [nl] @
     ''        Answer:''"
  by code_simp

end
